theory Spec2Isabelle
  imports Complex_Main "HOL-Library.Multiset"
begin

section \<open>The PHIVOLCS earthquake scraper (scrape\_phivolcs.py)\<close>

text \<open>
  A shallow embedding of \<^verbatim>\<open>src/scrape_phivolcs.py\<close>. The program fetches monthly HTML pages,
  lets pandas parse the tables in them, keeps the first wide table, strips header, summary
  and separator rows, and cleans the rows of a year before writing them to a file.

  What the libraries do is made explicit:
  \<^item> a pandas DataFrame is a \<^verbatim>\<open>frame\<close>: its column labels and its rows, each row with its
    index label and one cell per column;
  \<^item> a cell is missing (\<^verbatim>\<open>NaN\<close>), a text or a number. Numbers are read as rationals, so
    the infinities are left out; the one float that is not a number is \<^verbatim>\<open>NaN\<close>;
  \<^item> texts are HOL strings, a character standing for the code point of the same number
    (0 to 255), which covers the two degree glyphs of the source's patterns;
  \<^item> the text-to-number conversion of \<^verbatim>\<open>pd.to_numeric\<close> and the printing of numbers are
    not part of the repository and are parameters (\<^verbatim>\<open>pylib\<close>);
  \<^item> the network and the clock are parameters (\<^verbatim>\<open>world\<close>); the clock is read as constant
    during a run;
  \<^item> an exception is a value: inside the \<^verbatim>\<open>try\<close> blocks of the two scraping functions it
    is caught and becomes \<^verbatim>\<open>None\<close>, in \<^verbatim>\<open>scrape_year_data\<close> it propagates and is the
    \<^verbatim>\<open>Inl\<close> of the outcome;
  \<^item> the file system is a parameter (\<^verbatim>\<open>filesys\<close>): whether \<^verbatim>\<open>os.makedirs\<close> returns on a
    directory and whether a file can be opened for writing;
  \<^item> console output and \<^verbatim>\<open>time.sleep\<close> are left out.
\<close>

subsection \<open>Python strings\<close>

text \<open>\<^verbatim>\<open>str.lower\<close> on the code points below 256: the ASCII capitals and the Latin-1 capitals
  (all of 192 to 222 but the multiplication sign 215) move up by 32.\<close>

definition py_lower :: "char \<Rightarrow> char" where
  "py_lower c =
     (let n = of_char c :: nat
      in if (65 \<le> n \<and> n \<le> 90) \<or> (192 \<le> n \<and> n \<le> 222 \<and> n \<noteq> 215)
         then char_of (n + 32) else c)"

definition lower_str :: "string \<Rightarrow> string" where
  "lower_str s = map py_lower s"

text \<open>\<^verbatim>\<open>str.isspace\<close> on the code points below 256.\<close>

definition py_isspace :: "char \<Rightarrow> bool" where
  "py_isspace c = ((of_char c :: nat) \<in> set [9, 10, 11, 12, 13, 28, 29, 30, 31, 32, 133, 160])"

definition strip :: "string \<Rightarrow> string" where
  "strip s = rev (dropWhile py_isspace (rev (dropWhile py_isspace s)))"

subsection \<open>The regular expressions of the source\<close>

text \<open>
  The patterns of the source use literal characters, the dot, three character classes,
  alternation at top level and the anchors. An alternative is a list of atoms; a pattern
  with \<^verbatim>\<open>|\<close> is a list of alternatives.
\<close>

datatype atom = Lit char | Dot | Upper | Lower | Digit

definition in_range :: "char \<Rightarrow> nat \<Rightarrow> nat \<Rightarrow> bool" where
  "in_range c lo hi = (lo \<le> of_char c \<and> (of_char c :: nat) \<le> hi)"

text \<open>The flag is \<^verbatim>\<open>re.IGNORECASE\<close> (\<^verbatim>\<open>case=False\<close>). The dot matches all but the newline.\<close>

fun atom_match :: "bool \<Rightarrow> atom \<Rightarrow> char \<Rightarrow> bool" where
  "atom_match ic (Lit p) c = (if ic then py_lower c = py_lower p else c = p)"
| "atom_match ic Dot c = (c \<noteq> CHR 0x0A)"
| "atom_match ic Upper c = in_range c 65 90"
| "atom_match ic Lower c = in_range c 97 122"
| "atom_match ic Digit c = in_range c 48 57"

text \<open>Matching one alternative at the start of a text: the rest of the text after the match.\<close>

fun match_here :: "bool \<Rightarrow> atom list \<Rightarrow> string \<Rightarrow> string option" where
  "match_here ic [] s = Some s"
| "match_here ic (a # as) [] = None"
| "match_here ic (a # as) (c # cs) = (if atom_match ic a c then match_here ic as cs else None)"

text \<open>\<^verbatim>\<open>re.search\<close> of one alternative: a match at some position.\<close>

fun re_search :: "bool \<Rightarrow> atom list \<Rightarrow> string \<Rightarrow> bool" where
  "re_search ic p [] = (match_here ic p [] \<noteq> None)"
| "re_search ic p (c # cs) = (match_here ic p (c # cs) \<noteq> None \<or> re_search ic p cs)"

text \<open>\<^verbatim>\<open>Series.str.contains(pat, regex=True)\<close> on one text.\<close>

definition str_contains :: "bool \<Rightarrow> atom list list \<Rightarrow> string \<Rightarrow> bool" where
  "str_contains ic alts s = list_ex (\<lambda>p. re_search ic p s) alts"

text \<open>\<^verbatim>\<open>Series.str.match('^...$')\<close> on one text: a match at the start that ends at the end of
  the text, or just before a newline that ends it (Python's \<^verbatim>\<open>$\<close>).\<close>

definition str_match_anchored :: "atom list \<Rightarrow> string \<Rightarrow> bool" where
  "str_match_anchored p s =
     (case match_here False p s of None \<Rightarrow> False | Some rest \<Rightarrow> rest = [] \<or> rest = [CHR 0x0A])"

definition lit :: "string \<Rightarrow> atom list" where
  "lit s = map Lit s"

text \<open>The patterns of lines 153 to 155: \<^verbatim>\<open>Date|Time|Philippine\<close>, then \<^verbatim>\<open>Latitude\<close> or one of two
  degree glyphs before \<^verbatim>\<open>N\<close>, then \<^verbatim>\<open>Longitude\<close> or one of the glyphs before \<^verbatim>\<open>E\<close> (the glyphs are
  the masculine ordinal indicator, code point 186, and the degree sign, code point 176);
  \<^verbatim>\<open>'total|no. of events'\<close> (line 162) and \<^verbatim>\<open>'^[A-Z][a-z]{2}-\d{2}$'\<close> (line 163).\<close>

definition pat_datetime :: "atom list list" where
  "pat_datetime = [lit ''Date'', lit ''Time'', lit ''Philippine'']"

definition pat_latitude :: "atom list list" where
  "pat_latitude = [lit ''Latitude'', [Lit (CHR 0xBA), Lit CHR ''N''], [Lit (CHR 0xB0), Lit CHR ''N'']]"

definition pat_longitude :: "atom list list" where
  "pat_longitude = [lit ''Longitude'', [Lit (CHR 0xBA), Lit CHR ''E''], [Lit (CHR 0xB0), Lit CHR ''E'']]"

definition pat_summary :: "atom list list" where
  "pat_summary = [lit ''total'', lit ''no'' @ [Dot] @ lit '' of events'']"

definition pat_month_abbrev :: "atom list" where
  "pat_month_abbrev = [Upper, Lower, Lower, Lit CHR ''-'', Digit, Digit]"

subsection \<open>Cells and frames\<close>

datatype cell = NaN | Str string | Num rat

record pylib =
  to_num :: "string \<Rightarrow> rat option"
  str_num :: "rat \<Rightarrow> string"
  fmt4 :: "rat \<Rightarrow> string"

text \<open>\<^verbatim>\<open>to_num\<close> is \<^verbatim>\<open>pd.to_numeric(errors='coerce')\<close> on one text (\<^verbatim>\<open>None\<close> when the text is
  no number), \<^verbatim>\<open>str_num\<close> is \<^verbatim>\<open>str\<close> of a number, \<^verbatim>\<open>fmt4\<close> is the format \<^verbatim>\<open>.4f\<close>.\<close>

record frame =
  columns :: "string list"
  rows :: "(nat \<times> cell list) list"

definition isnull :: "cell \<Rightarrow> bool" where
  "isnull c = (c = NaN)"

text \<open>\<^verbatim>\<open>astype(str)\<close> on one cell: a missing cell reads \<^verbatim>\<open>nan\<close>.\<close>

definition astype_str :: "pylib \<Rightarrow> cell \<Rightarrow> string" where
  "astype_str L c = (case c of NaN \<Rightarrow> ''nan'' | Str s \<Rightarrow> s | Num q \<Rightarrow> str_num L q)"

fun index_of :: "'a \<Rightarrow> 'a list \<Rightarrow> nat option" where
  "index_of x [] = None"
| "index_of x (y # ys) = (if x = y then Some 0 else map_option Suc (index_of x ys))"

definition col_pos :: "frame \<Rightarrow> string \<Rightarrow> nat option" where
  "col_pos df c = index_of c (columns df)"

text \<open>A frame is rectangular; a cell read beyond the end of a row is missing.\<close>

definition cell_at :: "cell list \<Rightarrow> nat \<Rightarrow> cell" where
  "cell_at r p = (if p < length r then r ! p else NaN)"

definition getc :: "frame \<Rightarrow> cell list \<Rightarrow> string \<Rightarrow> cell" where
  "getc df r c = (case col_pos df c of Some p \<Rightarrow> cell_at r p | None \<Rightarrow> NaN)"

definition wf_frame :: "frame \<Rightarrow> bool" where
  "wf_frame df = list_all (\<lambda>(i, r). length r = length (columns df)) (rows df)"

text \<open>\<^verbatim>\<open>df.empty\<close>: one of the two axes has length zero.\<close>

definition df_empty :: "frame \<Rightarrow> bool" where
  "df_empty df = (rows df = [] \<or> columns df = [])"

text \<open>\<^verbatim>\<open>reset_index(drop=True)\<close>: the rows are numbered from 0 again.\<close>

definition reset_index :: "(nat \<times> cell list) list \<Rightarrow> (nat \<times> cell list) list" where
  "reset_index rs = enumerate 0 (map snd rs)"

text \<open>\<^verbatim>\<open>df.iloc[:, :k]\<close>.\<close>

definition iloc_cols :: "nat \<Rightarrow> frame \<Rightarrow> frame" where
  "iloc_cols k df = \<lparr>columns = take k (columns df), rows = map (\<lambda>(i, r). (i, take k r)) (rows df)\<rparr>"

text \<open>\<^verbatim>\<open>df[c] = v\<close> for a scalar: an existing column is overwritten, a new one is added last.\<close>

definition set_column :: "string \<Rightarrow> cell \<Rightarrow> frame \<Rightarrow> frame" where
  "set_column c v df =
     (case col_pos df c of
        Some p \<Rightarrow> df\<lparr>rows := map (\<lambda>(i, r). (i, r[p := v])) (rows df)\<rparr>
      | None \<Rightarrow> \<lparr>columns = columns df @ [c], rows = map (\<lambda>(i, r). (i, r @ [v])) (rows df)\<rparr>)"

subsection \<open>The table normalizer (lines 119 to 175, and the same text at lines 32 to 92)\<close>

text \<open>Lines 122 to 126: the first table with at least five columns.\<close>

fun find_table :: "frame list \<Rightarrow> frame option" where
  "find_table [] = None"
| "find_table (t # ts) = (if 5 \<le> length (columns t) then Some t else find_table ts)"

definition expected_columns :: "string list" where
  "expected_columns = [''Date-Time'', ''Latitude'', ''Longitude'', ''Depth'', ''Magnitude'', ''Location'']"

text \<open>Lines 142 to 149: the column names; \<^verbatim>\<open>None\<close> is the \<^verbatim>\<open>return None\<close> of the last branch.\<close>

definition assign_columns :: "frame \<Rightarrow> frame option" where
  "assign_columns df =
     (if length (columns df) = 6 then Some (df\<lparr>columns := expected_columns\<rparr>)
      else if length (columns df) > 6 then Some ((iloc_cols 6 df)\<lparr>columns := expected_columns\<rparr>)
      else None)"

text \<open>Lines 152 to 156: the mask of header rows, on the cells at the positions of the three
  labels.\<close>

definition header_row :: "pylib \<Rightarrow> nat \<Rightarrow> nat \<Rightarrow> nat \<Rightarrow> cell list \<Rightarrow> bool" where
  "header_row L a b c r =
     (str_contains True pat_datetime (astype_str L (cell_at r a)) \<or>
      str_contains True pat_latitude (astype_str L (cell_at r b)) \<or>
      str_contains True pat_longitude (astype_str L (cell_at r c)))"

text \<open>Lines 161 to 163: the two masks on the first column.\<close>

definition first_col :: "pylib \<Rightarrow> cell list \<Rightarrow> string" where
  "first_col L r = strip (astype_str L (cell_at r 0))"

definition summary_mask :: "pylib \<Rightarrow> cell list \<Rightarrow> bool" where
  "summary_mask L r = str_contains False pat_summary (lower_str (first_col L r))"

definition month_abbrev_mask :: "pylib \<Rightarrow> cell list \<Rightarrow> bool" where
  "month_abbrev_mask L r = str_match_anchored pat_month_abbrev (first_col L r)"

text \<open>Lines 151 to 167. A label that is missing raises KeyError, which the \<^verbatim>\<open>try\<close> block
  turns into \<^verbatim>\<open>None\<close>.\<close>

definition remove_rows :: "pylib \<Rightarrow> frame \<Rightarrow> frame option" where
  "remove_rows L df =
     (case (col_pos df ''Date-Time'', col_pos df ''Latitude'', col_pos df ''Longitude'') of
        (Some a, Some b, Some c) \<Rightarrow>
          (let df1 = df\<lparr>rows := reset_index (filter (\<lambda>(i, r). \<not> header_row L a b c r) (rows df))\<rparr>;
               df2 = (if \<not> df_empty df1
                      then df1\<lparr>rows := filter (\<lambda>(i, r). \<not> (summary_mask L r \<or> month_abbrev_mask L r)) (rows df1)\<rparr>
                      else df1)
           in Some (df2\<lparr>rows := reset_index (filter (\<lambda>(i, r). \<not> list_all isnull r) (rows df2))\<rparr>))
      | _ \<Rightarrow> None)"

text \<open>Lines 119 to 175, after the tables are parsed. The month and the year are the two
  metadata cells.\<close>

definition table_pipeline :: "pylib \<Rightarrow> frame list \<Rightarrow> cell \<Rightarrow> cell \<Rightarrow> frame option" where
  "table_pipeline L tables month year =
     (case find_table tables of
        None \<Rightarrow> None
      | Some df \<Rightarrow>
          if df_empty df then None
          else (case assign_columns df of
                  None \<Rightarrow> None
                | Some df1 \<Rightarrow>
                    (case remove_rows L df1 of
                       None \<Rightarrow> None
                     | Some df2 \<Rightarrow> Some (set_column ''Year'' year (set_column ''Month'' month df2)))))"

subsection \<open>The network, the clock and the exceptions\<close>

text \<open>
  A request is the URL of a monthly page or of the front page. A reply is a response with
  its status code and what \<^verbatim>\<open>pd.read_html\<close> makes of its text (\<^verbatim>\<open>None\<close> when it raises, as
  it does on a text with no table), or no response at all (a timeout, a connection error).
  The network answers a request by its place in the run: the number of requests before it.
\<close>

datatype request = Monthly_page int string | Main_page

datatype reply = Response nat "frame list option" | No_response

record world =
  net :: "nat \<Rightarrow> request \<Rightarrow> reply"
  now_year :: int
  now_month :: string

datatype exn = HTTPError nat | KeyError string | ValueError | OSError | Other_exception

definition then_do :: "exn + 'a \<Rightarrow> ('a \<Rightarrow> exn + 'b) \<Rightarrow> exn + 'b" where
  "then_do m f = (case m of Inl e \<Rightarrow> Inl e | Inr x \<Rightarrow> f x)"

text \<open>\<^verbatim>\<open>Response.raise_for_status\<close> of the requests library raises HTTPError on the client
  and server error codes, 400 to 599, and on no other code.\<close>

definition raise_for_status :: "nat \<Rightarrow> bool" where
  "raise_for_status st = (400 \<le> st \<and> st < 600)"

text \<open>Lines 112 to 119 (and 25 to 32): the GET, the status check, the parsing.\<close>

definition get_tables :: "reply \<Rightarrow> exn + frame list" where
  "get_tables rp =
     (case rp of
        No_response \<Rightarrow> Inl Other_exception
      | Response st body \<Rightarrow>
          if raise_for_status st then Inl (HTTPError st)
          else (case body of None \<Rightarrow> Inl Other_exception | Some tables \<Rightarrow> Inr tables))"

text \<open>Lines 15 to 96. The function takes the requests made so far and returns them with
  its own; every exception ends in \<^verbatim>\<open>return None\<close> (line 94).\<close>

definition scrape_current_month_from_main_page ::
  "world \<Rightarrow> pylib \<Rightarrow> request list \<Rightarrow> frame option \<times> request list" where
  "scrape_current_month_from_main_page W L reqs =
     (case get_tables (net W (length reqs) Main_page) of
        Inl e \<Rightarrow> (None, reqs @ [Main_page])
      | Inr tables \<Rightarrow>
          (table_pipeline L tables (Str (now_month W)) (Num (of_int (now_year W))),
           reqs @ [Main_page]))"

text \<open>Lines 99 to 187, with the two handlers of lines 177 to 187.\<close>

definition scrape_phivolcs_data_from_html ::
  "world \<Rightarrow> pylib \<Rightarrow> int \<Rightarrow> string \<Rightarrow> request list \<Rightarrow> frame option \<times> request list" where
  "scrape_phivolcs_data_from_html W L year month_name reqs =
     (let reqs1 = reqs @ [Monthly_page year month_name]
      in case get_tables (net W (length reqs) (Monthly_page year month_name)) of
           Inr tables \<Rightarrow> (table_pipeline L tables (Str month_name) (Num (of_int year)), reqs1)
         | Inl (HTTPError st) \<Rightarrow>
             if st = 404 then scrape_current_month_from_main_page W L reqs1 else (None, reqs1)
         | Inl _ \<Rightarrow> (None, reqs1))"

subsection \<open>The months of a year (lines 199 to 228)\<close>

definition MONTH_NAMES :: "string list" where
  "MONTH_NAMES = [''January'', ''February'', ''March'', ''April'', ''May'', ''June'',
                  ''July'', ''August'', ''September'', ''October'', ''November'', ''December'']"

record year_state =
  all_data :: "frame list"
  successful_months :: "string list"
  failed_months :: "string list"
  current_month_found :: bool
  requests :: "request list"

text \<open>Lines 221 to 225: the branch of a month without data.\<close>

definition month_failed :: "world \<Rightarrow> int \<Rightarrow> string \<Rightarrow> year_state \<Rightarrow> year_state" where
  "month_failed W year month_name s =
     s\<lparr>failed_months := failed_months s @ [month_name],
       current_month_found :=
         (if year = now_year W \<and> \<not> current_month_found s then True else current_month_found s)\<rparr>"

text \<open>Lines 205 to 225: one turn of the loop.\<close>

definition month_step :: "world \<Rightarrow> pylib \<Rightarrow> int \<Rightarrow> year_state \<Rightarrow> string \<Rightarrow> year_state" where
  "month_step W L year s month_name =
     (if current_month_found s then s\<lparr>failed_months := failed_months s @ [month_name]\<rparr>
      else
        (case scrape_phivolcs_data_from_html W L year month_name (requests s) of
           (Some df, reqs1) \<Rightarrow>
             if \<not> df_empty df
             then s\<lparr>all_data := all_data s @ [df],
                    successful_months := successful_months s @ [month_name],
                    current_month_found :=
                      (if year = now_year W \<and> month_name = now_month W then True
                       else current_month_found s),
                    requests := reqs1\<rparr>
             else month_failed W year month_name (s\<lparr>requests := reqs1\<rparr>)
         | (None, reqs1) \<Rightarrow> month_failed W year month_name (s\<lparr>requests := reqs1\<rparr>)))"

fun months_loop :: "world \<Rightarrow> pylib \<Rightarrow> int \<Rightarrow> string list \<Rightarrow> year_state \<Rightarrow> year_state" where
  "months_loop W L year [] s = s"
| "months_loop W L year (m # ms) s = months_loop W L year ms (month_step W L year s m)"

definition init_state :: "request list \<Rightarrow> year_state" where
  "init_state reqs =
     \<lparr>all_data = [], successful_months = [], failed_months = [],
      current_month_found = False, requests = reqs\<rparr>"

subsection \<open>Cleaning (lines 232 to 297)\<close>

text \<open>\<^verbatim>\<open>pd.concat(all_data, ignore_index=True)\<close>: the columns are the labels of all frames in
  the order of their first appearance, a row has a missing cell where its frame has no
  such column, and the rows are numbered from 0.\<close>

definition union_columns :: "frame list \<Rightarrow> string list" where
  "union_columns fs = foldl (\<lambda>acc f. acc @ filter (\<lambda>c. c \<notin> set acc) (columns f)) [] fs"

definition pd_concat :: "frame list \<Rightarrow> frame" where
  "pd_concat fs =
     (let cols = union_columns fs
      in \<lparr>columns = cols,
          rows = reset_index (concat (map (\<lambda>f. map (\<lambda>(i, r). (i, map (getc f r) cols)) (rows f)) fs))\<rparr>)"

definition numeric_cols :: "string list" where
  "numeric_cols = [''latitude'', ''longitude'', ''depth'', ''magnitude'']"

text \<open>\<^verbatim>\<open>pd.to_numeric(errors='coerce')\<close> on one cell.\<close>

definition to_numeric :: "pylib \<Rightarrow> cell \<Rightarrow> cell" where
  "to_numeric L c =
     (case c of
        NaN \<Rightarrow> NaN
      | Num q \<Rightarrow> Num q
      | Str s \<Rightarrow> (case to_num L s of None \<Rightarrow> NaN | Some q \<Rightarrow> Num q))"

text \<open>Lines 244 and 245: the loop over the numeric columns; a missing label raises KeyError.\<close>

fun coerce_columns :: "pylib \<Rightarrow> string list \<Rightarrow> frame \<Rightarrow> exn + frame" where
  "coerce_columns L [] df = Inr df"
| "coerce_columns L (c # cs) df =
     (case col_pos df c of
        None \<Rightarrow> Inl (KeyError c)
      | Some p \<Rightarrow>
          coerce_columns L cs
            (df\<lparr>rows := map (\<lambda>(i, r). (i, r[p := to_numeric L (cell_at r p)])) (rows df)\<rparr>))"

text \<open>Lines 248 and 255: the two masks, on one row. After the loop above the four labels
  exist, so that reading them cannot fail.\<close>

definition nan_mask :: "frame \<Rightarrow> cell list \<Rightarrow> bool" where
  "nan_mask df r = list_ex (\<lambda>c. isnull (getc df r c)) numeric_cols"

definition null_island_mask :: "frame \<Rightarrow> cell list \<Rightarrow> bool" where
  "null_island_mask df r = (getc df r ''latitude'' = Num 0 \<and> getc df r ''longitude'' = Num 0)"

text \<open>Lines 237 to 259: the rows kept, the rows removed for a missing number and the rows
  removed for null island. The masks are aligned by index label in the source; the labels
  are distinct after \<^verbatim>\<open>pd.concat\<close>, so that a mask is read row by row here.\<close>

definition clean_rows :: "pylib \<Rightarrow> frame \<Rightarrow> exn + frame \<times> frame \<times> frame" where
  "clean_rows L df =
     then_do (coerce_columns L numeric_cols (df\<lparr>columns := map lower_str (columns df)\<rparr>))
       (\<lambda>df1.
          let removed_nan_rows = df1\<lparr>rows := filter (\<lambda>(i, r). nan_mask df1 r) (rows df1)\<rparr>;
              df2 = df1\<lparr>rows := filter (\<lambda>(i, r). \<not> nan_mask df1 r) (rows df1)\<rparr>;
              removed_null_island_rows =
                df2\<lparr>rows := filter (\<lambda>(i, r). \<not> nan_mask df1 r \<and> null_island_mask df2 r) (rows df2)\<rparr>;
              df3 = df2\<lparr>rows := filter (\<lambda>(i, r). \<not> null_island_mask df2 r) (rows df2)\<rparr>
          in Inr (df3, removed_nan_rows, removed_null_island_rows))"

text \<open>Lines 280 to 283.\<close>

definition rename_col :: "string \<Rightarrow> string" where
  "rename_col c = (if c = ''date-time'' then ''datetime'' else if c = ''depth'' then ''depth_km'' else c)"

text \<open>Line 287, on one row: the four lookups and the two \<^verbatim>\<open>.4f\<close> formats, in the order
  of the f-string. The format \<^verbatim>\<open>.4f\<close> of a text raises ValueError.\<close>

definition lookup :: "frame \<Rightarrow> cell list \<Rightarrow> string \<Rightarrow> exn + cell" where
  "lookup df r c = (case col_pos df c of None \<Rightarrow> Inl (KeyError c) | Some p \<Rightarrow> Inr (cell_at r p))"

definition fmt4_cell :: "pylib \<Rightarrow> cell \<Rightarrow> exn + string" where
  "fmt4_cell L c = (case c of Num q \<Rightarrow> Inr (fmt4 L q) | NaN \<Rightarrow> Inr ''nan'' | Str s \<Rightarrow> Inl ValueError)"

definition make_id :: "pylib \<Rightarrow> frame \<Rightarrow> cell list \<Rightarrow> exn + string" where
  "make_id L df r =
     then_do (lookup df r ''datetime'') (\<lambda>dt.
     then_do (lookup df r ''latitude'') (\<lambda>la.
     then_do (fmt4_cell L la) (\<lambda>las.
     then_do (lookup df r ''longitude'') (\<lambda>lo.
     then_do (fmt4_cell L lo) (\<lambda>los.
     then_do (lookup df r ''magnitude'') (\<lambda>mg.
       Inr (astype_str L dt @ ''-'' @ las @ ''-'' @ los @ ''-'' @ astype_str L mg)))))))"

fun all_ids :: "pylib \<Rightarrow> frame \<Rightarrow> (nat \<times> cell list) list \<Rightarrow> exn + string list" where
  "all_ids L df [] = Inr []"
| "all_ids L df ((i, r) # rs) =
     then_do (make_id L df r) (\<lambda>x. then_do (all_ids L df rs) (\<lambda>xs. Inr (x # xs)))"

text \<open>\<^verbatim>\<open>df[c] = values\<close>, one value per row.\<close>

definition set_column_values :: "string \<Rightarrow> cell list \<Rightarrow> frame \<Rightarrow> frame" where
  "set_column_values c vs df =
     (case col_pos df c of
        Some p \<Rightarrow> df\<lparr>rows := map (\<lambda>((i, r), v). (i, r[p := v])) (zip (rows df) vs)\<rparr>
      | None \<Rightarrow>
          \<lparr>columns = columns df @ [c],
           rows = map (\<lambda>((i, r), v). (i, r @ [v])) (zip (rows df) vs)\<rparr>)"

text \<open>\<^verbatim>\<open>df[labels]\<close>: the columns of the labels, in their order.\<close>

definition select_columns :: "string list \<Rightarrow> frame \<Rightarrow> frame" where
  "select_columns cs df = \<lparr>columns = cs, rows = map (\<lambda>(i, r). (i, map (getc df r) cs)) (rows df)\<rparr>"

definition final_columns :: "string list" where
  "final_columns = [''id'', ''datetime'', ''latitude'', ''longitude'', ''depth_km'',
                    ''magnitude'', ''location'', ''month'', ''year'']"

text \<open>Lines 279 to 297: the renaming, the identifier, the order of the columns.\<close>

definition standardize :: "pylib \<Rightarrow> frame \<Rightarrow> exn + frame" where
  "standardize L df =
     (let df1 = df\<lparr>columns := map rename_col (columns df)\<rparr>
      in then_do (all_ids L df1 (rows df1))
           (\<lambda>ids. let df2 = set_column_values ''id'' (map Str ids) df1
                  in Inr (select_columns (filter (\<lambda>c. c \<in> set (columns df2)) final_columns) df2)))"

text \<open>Lines 237 to 297: the valid records and the two frames of removed rows.\<close>

definition clean :: "pylib \<Rightarrow> frame \<Rightarrow> exn + frame \<times> frame \<times> frame" where
  "clean L df =
     then_do (clean_rows L df)
       (\<lambda>(kept, removed_nan_rows, removed_null_island_rows).
          then_do (standardize L kept)
            (\<lambda>valid. Inr (valid, removed_nan_rows, removed_null_island_rows)))"

subsection \<open>The file of a year (lines 230 to 317)\<close>

fun str_nat :: "nat \<Rightarrow> string" where
  "str_nat n = (if n < 10 then [char_of (48 + n)] else str_nat (n div 10) @ [char_of (48 + n mod 10)])"

declare str_nat.simps [simp del]

definition str_int :: "int \<Rightarrow> string" where
  "str_int i = (if i < 0 then CHR ''-'' # str_nat (nat (- i)) else str_nat (nat i))"

text \<open>\<^verbatim>\<open>os.path.join\<close> of two parts (posixpath).\<close>

definition os_path_join :: "string \<Rightarrow> string \<Rightarrow> string" where
  "os_path_join a b =
     (if b \<noteq> [] \<and> hd b = CHR ''/'' then b
      else if a = [] \<or> last a = CHR ''/'' then a @ b
      else a @ ''/'' @ b)"

definition year_file :: "string \<Rightarrow> int \<Rightarrow> string" where
  "year_file output_dir year = os_path_join output_dir (''phivolcs_earthquake_'' @ str_int year @ ''.csv'')"

text \<open>
  The file system, as far as lines 303 to 307 use it: \<^verbatim>\<open>can_makedirs\<close> says whether
  \<^verbatim>\<open>os.makedirs(d, exist_ok=True)\<close> returns on a directory name, \<^verbatim>\<open>can_write\<close> whether a file
  can be opened for writing. On the empty name \<^verbatim>\<open>os.makedirs\<close> raises FileNotFoundError
  whatever the file system; every failure is an OSError.
\<close>

record filesys =
  can_makedirs :: "string \<Rightarrow> bool"
  can_write :: "string \<Rightarrow> bool"

definition os_makedirs :: "filesys \<Rightarrow> string \<Rightarrow> exn + unit" where
  "os_makedirs F d = (if d = [] \<or> \<not> can_makedirs F d then Inl OSError else Inr ())"

text \<open>\<^verbatim>\<open>df.to_csv(path)\<close>: the file written, with the frame it holds.\<close>

definition to_csv :: "filesys \<Rightarrow> string \<Rightarrow> frame \<Rightarrow> exn + string \<times> frame" where
  "to_csv F path df = (if can_write F path then Inr (path, df) else Inl OSError)"

record year_result =
  outcome :: "exn + frame option"
  written :: "(string \<times> frame) list"
  final :: year_state

text \<open>Lines 190 to 317. \<^verbatim>\<open>outcome\<close> is the value returned, or the exception that leaves the
  function: nothing catches an exception of the cleaning, of \<^verbatim>\<open>os.makedirs\<close> or of
  \<^verbatim>\<open>to_csv\<close>. \<^verbatim>\<open>written\<close> lists the files written, each with the frame that \<^verbatim>\<open>to_csv\<close>
  received, and \<^verbatim>\<open>final\<close> is the state after the loop over the months.\<close>

definition scrape_year_data ::
  "world \<Rightarrow> filesys \<Rightarrow> pylib \<Rightarrow> int \<Rightarrow> string \<Rightarrow> request list \<Rightarrow> year_result" where
  "scrape_year_data W F L year output_dir reqs =
     (let s = months_loop W L year MONTH_NAMES (init_state reqs)
      in if all_data s \<noteq> []
         then (case then_do (clean L (pd_concat (all_data s)))
                      (\<lambda>(combined_df, removed_nan_rows, removed_null_island_rows).
                         then_do (os_makedirs F output_dir)
                           (\<lambda>u. then_do (to_csv F (year_file output_dir year) combined_df)
                                  (\<lambda>file. Inr (combined_df, file)))) of
                 Inl e \<Rightarrow> \<lparr>outcome = Inl e, written = [], final = s\<rparr>
               | Inr (combined_df, file) \<Rightarrow>
                   \<lparr>outcome = Inr (Some combined_df), written = [file], final = s\<rparr>)
         else \<lparr>outcome = Inr None, written = [], final = s\<rparr>)"

subsection \<open>Derived notions and concrete inputs\<close>

text \<open>The rows that lines 151 to 167 remove, as one predicate on the cells of a row whose
  columns carry the expected labels: the positions of the three labels are 0, 1 and 2.\<close>

definition drops :: "pylib \<Rightarrow> cell list \<Rightarrow> bool" where
  "drops L r = (header_row L 0 1 2 r \<or> summary_mask L r \<or> month_abbrev_mask L r \<or> list_all isnull r)"

text \<open>The cells of a row that the column step of lines 142 to 146 keeps.\<close>

definition kept_cells :: "frame \<Rightarrow> cell list \<Rightarrow> cell list" where
  "kept_cells df r = (if length (columns df) = 6 then r else take 6 r)"

text \<open>A small library for the concrete inputs, and four parsed tables.\<close>

definition L0 :: pylib where
  "L0 = \<lparr>to_num = (\<lambda>s. if s = ''0'' then Some 0 else if s = ''14.5'' then Some (29 / 2)
                      else if s = ''121.0'' then Some 121 else if s = ''10'' then Some 10
                      else if s = ''4.2'' then Some (21 / 5) else None),
          str_num = (\<lambda>q. if q = 21 / 5 then ''4.2'' else if q = 2024 then ''2024'' else ''0.0''),
          fmt4 = (\<lambda>q. if q = 29 / 2 then ''14.5000'' else if q = 121 then ''121.0000'' else ''0.0000'')\<rparr>"

definition quake_row :: "cell list" where
  "quake_row = [Str ''01 January 2024 - 03:00 AM'', Str ''14.5'', Str ''121.0'', Str ''10'',
                Str ''4.2'', Str ''Quezon City'']"

definition narrow_table :: frame where
  "narrow_table = \<lparr>columns = [''0'', ''1'', ''2''], rows = [(0, [Str ''a'', Str ''b'', Str ''c''])]\<rparr>"

definition five_table :: frame where
  "five_table = \<lparr>columns = [''0'', ''1'', ''2'', ''3'', ''4''], rows = [(0, take 5 quake_row)]\<rparr>"

definition six_table :: frame where
  "six_table = \<lparr>columns = [''0'', ''1'', ''2'', ''3'', ''4'', ''5''],
     rows = [(0, [Str ''Date-Time'', Str ''Latitude'', Str ''Longitude'', Str ''Depth'',
                  Str ''Magnitude'', Str ''Location'']),
             (1, [Str ''Jan-24'', NaN, NaN, NaN, NaN, NaN]),
             (2, quake_row)]\<rparr>"


text \<open>The coercion of lines 244 and 245 on one row: the cell at a position, then the cells
  at a list of positions.\<close>

definition coerce_at :: "pylib \<Rightarrow> nat \<Rightarrow> cell list \<Rightarrow> cell list" where
  "coerce_at L p r = r[p := to_numeric L (cell_at r p)]"

definition coerce_row :: "pylib \<Rightarrow> nat list \<Rightarrow> cell list \<Rightarrow> cell list" where
  "coerce_row L ps r = foldl (\<lambda>r p. coerce_at L p r) r ps"

text \<open>The labels of a normalized frame after line 238, and after the renaming of line 280.\<close>

definition clean_columns :: "string list" where
  "clean_columns = [''date-time'', ''latitude'', ''longitude'', ''depth'', ''magnitude'',
                    ''location'', ''month'', ''year'']"

definition renamed_columns :: "string list" where
  "renamed_columns = [''datetime'', ''latitude'', ''longitude'', ''depth_km'', ''magnitude'',
                      ''location'', ''month'', ''year'']"

text \<open>A row of a frame with the labels of line 238 whose four numeric cells are numbers
  and that is not at latitude 0 and longitude 0; the same for a record of the final frame,
  read by its labels.\<close>

definition numeric_row :: "cell list \<Rightarrow> bool" where
  "numeric_row r = (\<exists>a b c d. cell_at r 1 = Num a \<and> cell_at r 2 = Num b \<and> cell_at r 3 = Num c \<and>
      cell_at r 4 = Num d \<and> \<not> (a = 0 \<and> b = 0))"

definition good_record :: "frame \<Rightarrow> cell list \<Rightarrow> bool" where
  "good_record valid r =
     (\<exists>la lo de ma. getc valid r ''latitude'' = Num la \<and> getc valid r ''longitude'' = Num lo \<and>
        getc valid r ''depth_km'' = Num de \<and> getc valid r ''magnitude'' = Num ma \<and>
        \<not> (la = 0 \<and> lo = 0))"

text \<open>The rows of one year as the normalizer hands them to the cleaning: a record, a record
  at latitude 0 and longitude 0, and a record whose latitude is a dash. Then the three
  frames that the cleaning makes of them, and the rows kept before they are renamed.\<close>

definition year_input :: frame where
  "year_input =
     \<lparr>columns = [''Date-Time'', ''Latitude'', ''Longitude'', ''Depth'', ''Magnitude'', ''Location'',
                 ''Month'', ''Year''],
      rows = [(0, [Str ''01 January 2024 - 03:00 AM'', Str ''14.5'', Str ''121.0'', Str ''10'',
                   Str ''4.2'', Str ''Quezon City'', Str ''January'', Num 2024]),
              (1, [Str ''02 January 2024 - 04:00 AM'', Str ''0'', Str ''0'', Str ''10'',
                   Str ''4.2'', Str ''Nowhere'', Str ''January'', Num 2024]),
              (2, [Str ''03 January 2024 - 05:00 AM'', Str ''---'', Str ''121.0'', Str ''10'',
                   Str ''4.2'', Str ''Dash'', Str ''January'', Num 2024])]\<rparr>"

definition year_kept :: frame where
  "year_kept =
     \<lparr>columns = [''date-time'', ''latitude'', ''longitude'', ''depth'', ''magnitude'', ''location'',
                 ''month'', ''year''],
      rows = [(0, [Str ''01 January 2024 - 03:00 AM'', Num (29 / 2), Num 121, Num 10,
                   Num (21 / 5), Str ''Quezon City'', Str ''January'', Num 2024])]\<rparr>"

definition year_missing :: frame where
  "year_missing =
     \<lparr>columns = [''date-time'', ''latitude'', ''longitude'', ''depth'', ''magnitude'', ''location'',
                 ''month'', ''year''],
      rows = [(2, [Str ''03 January 2024 - 05:00 AM'', NaN, Num 121, Num 10,
                   Num (21 / 5), Str ''Dash'', Str ''January'', Num 2024])]\<rparr>"

definition year_island :: frame where
  "year_island =
     \<lparr>columns = [''date-time'', ''latitude'', ''longitude'', ''depth'', ''magnitude'', ''location'',
                 ''month'', ''year''],
      rows = [(1, [Str ''02 January 2024 - 04:00 AM'', Num 0, Num 0, Num 10,
                   Num (21 / 5), Str ''Nowhere'', Str ''January'', Num 2024])]\<rparr>"

definition year_valid :: frame where
  "year_valid =
     \<lparr>columns = [''id'', ''datetime'', ''latitude'', ''longitude'', ''depth_km'', ''magnitude'',
                 ''location'', ''month'', ''year''],
      rows = [(0, [Str ''01 January 2024 - 03:00 AM-14.5000-121.0000-4.2'',
                   Str ''01 January 2024 - 03:00 AM'', Num (29 / 2), Num 121, Num 10,
                   Num (21 / 5), Str ''Quezon City'', Str ''January'', Num 2024])]\<rparr>"

text \<open>The test of line 213, negated: the scrape of a month returned nothing, or a frame that
  is empty.\<close>

definition no_rows :: "frame option \<Rightarrow> bool" where
  "no_rows r = (case r of None \<Rightarrow> True | Some df \<Rightarrow> df_empty df)"

text \<open>Three worlds, all in November 2026. In the first every monthly page answers 404 and the
  front page holds the six-column table; in the second every request is answered with
  status 300 and the table; in the third the monthly pages answer 500 and the front page
  does not answer.\<close>

definition W_nov :: world where
  "W_nov = \<lparr>net = (\<lambda>n rq. case rq of Main_page \<Rightarrow> Response 200 (Some [six_table])
                              | Monthly_page y m \<Rightarrow> Response 404 None),
            now_year = 2026, now_month = ''November''\<rparr>"

definition W_redirect :: world where
  "W_redirect = \<lparr>net = (\<lambda>n rq. Response 300 (Some [six_table])),
                 now_year = 2026, now_month = ''November''\<rparr>"

definition W_down :: world where
  "W_down = \<lparr>net = (\<lambda>n rq. case rq of Main_page \<Rightarrow> No_response
                               | Monthly_page y m \<Rightarrow> Response 500 None),
             now_year = 2026, now_month = ''November''\<rparr>"

text \<open>What the normalizer makes of the six-column table.\<close>

definition page_frame :: "cell \<Rightarrow> cell \<Rightarrow> frame" where
  "page_frame m y = \<lparr>columns = expected_columns @ [''Month'', ''Year''], rows = [(0, quake_row @ [m, y])]\<rparr>"

text \<open>The invariant of the loop over the months: every frame gathered so far has the labels
  of the normalizer and at least one row, and there is one successful month per frame.\<close>

definition scraped_ok :: "year_state \<Rightarrow> bool" where
  "scraped_ok s =
     (list_all (\<lambda>df. columns df = expected_columns @ [''Month'', ''Year''] \<and> rows df \<noteq> []) (all_data s) \<and>
      length (successful_months s) = length (all_data s))"

text \<open>A year whose only page, January 2024, holds one row with a dash for the latitude; the
  other months do not answer. Then the frame that the normalizer makes of the page, the
  frames of the cleaning, and the state after the twelve months.\<close>

definition dash_table :: frame where
  "dash_table =
     \<lparr>columns = [''0'', ''1'', ''2'', ''3'', ''4'', ''5''],
      rows = [(0, [Str ''03 January 2024 - 05:00 AM'', Str ''---'', Str ''121.0'', Str ''10'',
                   Str ''4.2'', Str ''Dash''])]\<rparr>"

definition W_dash :: world where
  "W_dash = \<lparr>net = (\<lambda>n rq. if rq = Monthly_page 2024 ''January'' then Response 200 (Some [dash_table])
                           else No_response),
             now_year = 2026, now_month = ''November''\<rparr>"

definition dash_frame :: frame where
  "dash_frame =
     \<lparr>columns = [''Date-Time'', ''Latitude'', ''Longitude'', ''Depth'', ''Magnitude'', ''Location'',
                 ''Month'', ''Year''],
      rows = [(0, [Str ''03 January 2024 - 05:00 AM'', Str ''---'', Str ''121.0'', Str ''10'',
                   Str ''4.2'', Str ''Dash'', Str ''January'', Num 2024])]\<rparr>"

text \<open>The valid frame that holds no record.\<close>

definition no_records :: frame where
  "no_records = \<lparr>columns = final_columns, rows = []\<rparr>"

definition dash_missing :: frame where
  "dash_missing =
     \<lparr>columns = [''date-time'', ''latitude'', ''longitude'', ''depth'', ''magnitude'', ''location'',
                 ''month'', ''year''],
      rows = [(0, [Str ''03 January 2024 - 05:00 AM'', NaN, Num 121, Num 10, Num (21 / 5),
                   Str ''Dash'', Str ''January'', Num 2024])]\<rparr>"

definition none_kept :: frame where
  "none_kept =
     \<lparr>columns = [''date-time'', ''latitude'', ''longitude'', ''depth'', ''magnitude'', ''location'',
                 ''month'', ''year''],
      rows = []\<rparr>"

definition dash_final :: year_state where
  "dash_final =
     \<lparr>all_data = [dash_frame], successful_months = [''January''],
      failed_months = [''February'', ''March'', ''April'', ''May'', ''June'', ''July'', ''August'',
                       ''September'', ''October'', ''November'', ''December''],
      current_month_found = False,
      requests = [Monthly_page 2024 ''January'', Monthly_page 2024 ''February'',
                  Monthly_page 2024 ''March'', Monthly_page 2024 ''April'', Monthly_page 2024 ''May'',
                  Monthly_page 2024 ''June'', Monthly_page 2024 ''July'', Monthly_page 2024 ''August'',
                  Monthly_page 2024 ''September'', Monthly_page 2024 ''October'',
                  Monthly_page 2024 ''November'', Monthly_page 2024 ''December'']\<rparr>"

text \<open>The four drop predicates as claim C2 words them. These definitions follow the words of
  the claim, not the source; they are compared below with \<^verbatim>\<open>drops\<close>, the predicate of the
  source. A text contains another when the other occurs in it as a contiguous part;
  case-insensitive means after lower-casing both.\<close>

fun has_substring :: "string \<Rightarrow> string \<Rightarrow> bool" where
  "has_substring p [] = (p = [])"
| "has_substring p (c # cs) = (take (length p) (c # cs) = p \<or> has_substring p cs)"

definition ci_contains :: "string \<Rightarrow> string \<Rightarrow> bool" where
  "ci_contains p s = has_substring (lower_str p) (lower_str s)"

definition claimed_header :: "pylib \<Rightarrow> cell list \<Rightarrow> bool" where
  "claimed_header L r =
     (ci_contains ''Date'' (astype_str L (cell_at r 0)) \<or>
      ci_contains ''Time'' (astype_str L (cell_at r 0)) \<or>
      ci_contains ''Philippine'' (astype_str L (cell_at r 0)) \<or>
      ci_contains ''Latitude'' (astype_str L (cell_at r 1)) \<or>
      ci_contains [CHR 0xBA, CHR ''N''] (astype_str L (cell_at r 1)) \<or>
      ci_contains [CHR 0xB0, CHR ''N''] (astype_str L (cell_at r 1)) \<or>
      ci_contains ''Longitude'' (astype_str L (cell_at r 2)) \<or>
      ci_contains [CHR 0xBA, CHR ''E''] (astype_str L (cell_at r 2)) \<or>
      ci_contains [CHR 0xB0, CHR ''E''] (astype_str L (cell_at r 2)))"

definition claimed_summary :: "pylib \<Rightarrow> cell list \<Rightarrow> bool" where
  "claimed_summary L r =
     (ci_contains ''total'' (first_col L r) \<or> ci_contains ''no. of events'' (first_col L r))"

definition claimed_month_abbrev :: "pylib \<Rightarrow> cell list \<Rightarrow> bool" where
  "claimed_month_abbrev L r =
     (case first_col L r of
        [a, b, c, d, e, f] \<Rightarrow>
          in_range a 65 90 \<and> in_range b 97 122 \<and> in_range c 97 122 \<and> d = CHR ''-'' \<and>
          in_range e 48 57 \<and> in_range f 48 57
      | _ \<Rightarrow> False)"

definition claimed_drop :: "pylib \<Rightarrow> cell list \<Rightarrow> bool" where
  "claimed_drop L r =
     (claimed_header L r \<or> claimed_summary L r \<or> claimed_month_abbrev L r \<or> list_all isnull r)"

text \<open>The second alternative of the pattern of line 162 as the source has it: the dot of
  \<^verbatim>\<open>no. of events\<close> is not escaped and stands for any character but the newline.\<close>

definition dot_wildcard :: "pylib \<Rightarrow> cell list \<Rightarrow> bool" where
  "dot_wildcard L r = re_search False (lit ''no'' @ [Dot] @ lit '' of events'') (lower_str (first_col L r))"

text \<open>A data row whose first cell reads \<^verbatim>\<open>No: of Events\<close>, and a six-column table that holds it.\<close>

definition typo_row :: "cell list" where
  "typo_row = [Str ''No: of Events'', Str ''14.5'', Str ''121.0'', Str ''10'', Str ''4.2'',
               Str ''Quezon City'']"

definition typo_table :: frame where
  "typo_table = \<lparr>columns = [''0'', ''1'', ''2'', ''3'', ''4'', ''5''], rows = [(0, typo_row)]\<rparr>"

text \<open>A file system that refuses nothing, and a page of three tables: a narrow one, then two
  of six columns.\<close>

definition F_ok :: filesys where
  "F_ok = \<lparr>can_makedirs = (\<lambda>d. True), can_write = (\<lambda>p. True)\<rparr>"

definition W_three :: world where
  "W_three = \<lparr>net = (\<lambda>n q. Response 200 (Some [narrow_table, six_table, dash_table])),
               now_year = 2026, now_month = ''November''\<rparr>"

section \<open>Properties of the table normalizer\<close>

lemma find_table_skip:
  "list_all (\<lambda>t. length (columns t) < 5) pre \<Longrightarrow> find_table (pre @ ts) = find_table ts"
  by (induction pre) auto

lemma find_table_none:
  "list_all (\<lambda>t. length (columns t) < 5) tables \<Longrightarrow> find_table tables = None"
  by (induction tables) auto

lemma find_table_first:
  "list_all (\<lambda>t. length (columns t) < 5) pre \<Longrightarrow> 5 \<le> length (columns df) \<Longrightarrow>
   find_table (pre @ df # post) = Some df"
  by (simp add: find_table_skip)

lemma col_pos_expected:
  assumes "columns df = expected_columns"
  shows "col_pos df ''Date-Time'' = Some 0" "col_pos df ''Latitude'' = Some 1"
    "col_pos df ''Longitude'' = Some 2" "col_pos df ''Month'' = None" "col_pos df ''Year'' = None"
  using assms by (simp_all add: col_pos_def expected_columns_def)

lemma map_snd_enumerate: "map snd (enumerate n xs) = xs"
  by (simp add: enumerate_eq_zip)


lemma map_snd_filter_row:
  "map snd (filter (\<lambda>(i, r). P r) rs) = filter P (map snd rs)"
  by (induction rs) auto

lemma guarded_filter:
  "columns d \<noteq> [] \<Longrightarrow>
   (if \<not> df_empty d then d\<lparr>rows := filter P (rows d)\<rparr> else d) = d\<lparr>rows := filter P (rows d)\<rparr>"
  by (cases "rows d = []") (auto simp: df_empty_def)

lemma remove_rows_expected:
  assumes "columns df = expected_columns"
  shows "remove_rows L df =
    Some (df\<lparr>rows := enumerate 0 (filter (\<lambda>r. \<not> drops L r) (map snd (rows df)))\<rparr>)"
proof -
  define rs1 where "rs1 = reset_index (filter (\<lambda>(i, r). \<not> header_row L 0 1 2 r) (rows df))"
  define rs2 where "rs2 = filter (\<lambda>(i, r). \<not> (summary_mask L r \<or> month_abbrev_mask L r)) rs1"
  define rs3 where "rs3 = reset_index (filter (\<lambda>(i, r). \<not> list_all isnull r) rs2)"
  have m1: "map snd rs1 = filter (\<lambda>r. \<not> header_row L 0 1 2 r) (map snd (rows df))"
    by (simp add: rs1_def reset_index_def map_snd_enumerate map_snd_filter_row)
  have m2: "map snd rs2 = filter (\<lambda>r. \<not> (summary_mask L r \<or> month_abbrev_mask L r)) (map snd rs1)"
    unfolding rs2_def by (rule map_snd_filter_row)
  have m3: "rs3 = enumerate 0 (filter (\<lambda>r. \<not> list_all isnull r) (map snd rs2))"
    unfolding rs3_def reset_index_def by (simp only: map_snd_filter_row)
  have c: "filter (\<lambda>r. \<not> list_all isnull r)
             (filter (\<lambda>r. \<not> (summary_mask L r \<or> month_abbrev_mask L r))
                (filter (\<lambda>r. \<not> header_row L 0 1 2 r) (map snd (rows df))))
      = filter (\<lambda>r. \<not> drops L r) (map snd (rows df))"
    by (auto simp: drops_def intro: filter_cong)
  have ne: "columns (df\<lparr>rows := rs1\<rparr>) \<noteq> []"
    using assms by (simp add: expected_columns_def)
  have "remove_rows L df = Some (df\<lparr>rows := rs3\<rparr>)"
    unfolding remove_rows_def Let_def col_pos_expected [OF assms]
    by (simp only: option.case prod.case guarded_filter [OF ne] rs1_def [symmetric])
      (simp add: rs2_def rs3_def)
  then show ?thesis by (simp only: m3 m2 m1 c)
qed

lemma set_column_new:
  "col_pos df c = None \<Longrightarrow>
   set_column c v df = \<lparr>columns = columns df @ [c], rows = map (\<lambda>(i, r). (i, r @ [v])) (rows df)\<rparr>"
  by (simp add: set_column_def)

lemma add_metadata:
  assumes "columns df = expected_columns"
  shows "set_column ''Year'' y (set_column ''Month'' m df) =
    \<lparr>columns = expected_columns @ [''Month'', ''Year''],
     rows = map (\<lambda>(i, r). (i, r @ [m, y])) (rows df)\<rparr>"
proof -
  have a: "set_column ''Month'' m df =
      \<lparr>columns = expected_columns @ [''Month''], rows = map (\<lambda>(i, r). (i, r @ [m])) (rows df)\<rparr>"
    using assms by (simp add: set_column_new col_pos_expected)
  have b: "col_pos \<lparr>columns = expected_columns @ [''Month''], rows = rs\<rparr> ''Year'' = None" for rs
    by (simp add: col_pos_def expected_columns_def)
  show ?thesis
    unfolding a by (simp add: set_column_new [OF b] case_prod_unfold)
qed

lemma assign_columns_wide:
  assumes "6 \<le> length (columns df)"
  shows "assign_columns df =
    Some \<lparr>columns = expected_columns, rows = map (\<lambda>(i, r). (i, kept_cells df r)) (rows df)\<rparr>"
  using assms
  by (auto simp: assign_columns_def kept_cells_def iloc_cols_def)

lemma assign_columns_narrow: "length (columns df) < 6 \<Longrightarrow> assign_columns df = None"
  by (simp add: assign_columns_def)

lemma table_pipeline_rows:
  assumes "find_table tables = Some df" "\<not> df_empty df" "6 \<le> length (columns df)"
  shows "table_pipeline L tables m y =
    Some \<lparr>columns = expected_columns @ [''Month'', ''Year''],
          rows = map (\<lambda>(i, r). (i, r @ [m, y]))
            (enumerate 0 (filter (\<lambda>r. \<not> drops L r) (map (kept_cells df) (map snd (rows df)))))\<rparr>"
proof -
  let ?d1 = "\<lparr>columns = expected_columns, rows = map (\<lambda>(i, r). (i, kept_cells df r)) (rows df)\<rparr>"
  have c1: "columns ?d1 = expected_columns" by simp
  have s: "map snd (map (\<lambda>(i, r). (i, kept_cells df r)) (rows df)) = map (kept_cells df) (map snd (rows df))"
    by (simp add: case_prod_unfold)
  have r: "remove_rows L ?d1 =
      Some \<lparr>columns = expected_columns,
            rows = enumerate 0 (filter (\<lambda>r. \<not> drops L r) (map (kept_cells df) (map snd (rows df))))\<rparr>"
    unfolding remove_rows_expected [OF c1] by (simp only: frame.simps s)
  show ?thesis
    unfolding table_pipeline_def
    by (simp add: assms assign_columns_wide r add_metadata)
qed

lemma table_pipeline_narrow:
  assumes "find_table tables = Some df" "length (columns df) < 6"
  shows "table_pipeline L tables m y = None"
  by (simp add: table_pipeline_def assms assign_columns_narrow)

lemma table_pipeline_empty:
  assumes "find_table tables = Some df" "df_empty df"
  shows "table_pipeline L tables m y = None"
  by (simp add: table_pipeline_def assms)



section \<open>Properties of the cleaning\<close>

lemma then_do_Inr: "then_do m f = Inr y \<longleftrightarrow> (\<exists>x. m = Inr x \<and> f x = Inr y)"
  by (cases m) (auto simp: then_do_def)

lemma to_numeric_idem: "to_numeric L (to_numeric L c) = to_numeric L c"
  by (auto simp: to_numeric_def split: cell.splits option.splits)

lemma to_numeric_not_Str: "to_numeric L c \<noteq> Str s"
  by (auto simp: to_numeric_def split: cell.splits option.splits)

lemma to_numeric_Num: "to_numeric L (Num q) = Num q"
  by (simp add: to_numeric_def)

lemma cell_at_coerce_at:
  "cell_at (coerce_at L p r) q = (if q = p then to_numeric L (cell_at r p) else cell_at r q)"
  by (auto simp: cell_at_def coerce_at_def to_numeric_def)

lemma length_coerce_at: "length (coerce_at L p r) = length r"
  by (simp add: coerce_at_def)

lemma cell_at_coerce_row:
  "cell_at (coerce_row L ps r) q = (if q \<in> set ps then to_numeric L (cell_at r q) else cell_at r q)"
  unfolding coerce_row_def
proof (induction ps arbitrary: r)
  case Nil
  then show ?case by simp
next
  case (Cons p ps)
  show ?case
    by (simp add: Cons.IH cell_at_coerce_at to_numeric_idem)
qed

lemma length_coerce_row: "length (coerce_row L ps r) = length r"
  unfolding coerce_row_def
  by (induction ps arbitrary: r) (simp_all add: length_coerce_at)

lemma coerce_at_Num: "cell_at r p = Num q \<Longrightarrow> coerce_at L p r = r"
  by (auto simp: coerce_at_def cell_at_def to_numeric_def list_update_same_conv split: if_splits)

lemma coerce_row_id:
  "\<forall>p \<in> set ps. \<exists>q. cell_at r p = Num q \<Longrightarrow> coerce_row L ps r = r"
  unfolding coerce_row_def
  by (induction ps arbitrary: r) (auto simp: coerce_at_Num)

lemma coerce_columns_Inr:
  "coerce_columns L cs df = Inr df' \<Longrightarrow>
     (\<forall>c \<in> set cs. col_pos df c \<noteq> None) \<and>
     df' = df\<lparr>rows := map (\<lambda>(i, r). (i, coerce_row L (map (\<lambda>c. the (col_pos df c)) cs) r)) (rows df)\<rparr>"
proof (induction cs arbitrary: df)
  case Nil
  then show ?case by (simp add: coerce_row_def case_prod_unfold)
next
  case (Cons c cs)
  from Cons.prems obtain p where p: "col_pos df c = Some p"
    by (auto split: option.splits)
  let ?d = "df\<lparr>rows := map (\<lambda>(i, r). (i, r[p := to_numeric L (cell_at r p)])) (rows df)\<rparr>"
  from Cons.prems p have "coerce_columns L cs ?d = Inr df'" by simp
  from Cons.IH [OF this] have a: "\<forall>c \<in> set cs. col_pos ?d c \<noteq> None"
    and b: "df' = ?d\<lparr>rows := map (\<lambda>(i, r). (i, coerce_row L (map (\<lambda>c. the (col_pos ?d c)) cs) r)) (rows ?d)\<rparr>"
    by blast+
  have cp: "col_pos ?d = col_pos df" by (simp add: col_pos_def fun_eq_iff)
  show ?case
    using a p unfolding b cp
    by (simp add: coerce_row_def coerce_at_def case_prod_unfold)
qed

lemma coerce_columns_ok:
  "\<forall>c \<in> set cs. col_pos df c \<noteq> None \<Longrightarrow> \<exists>df'. coerce_columns L cs df = Inr df'"
proof (induction cs arbitrary: df)
  case Nil
  then show ?case by simp
next
  case (Cons c cs)
  then obtain p where p: "col_pos df c = Some p" by auto
  let ?d = "df\<lparr>rows := map (\<lambda>(i, r). (i, r[p := to_numeric L (cell_at r p)])) (rows df)\<rparr>"
  have cp: "col_pos ?d = col_pos df" by (simp add: col_pos_def fun_eq_iff)
  from Cons.prems have "\<forall>c \<in> set cs. col_pos ?d c \<noteq> None" unfolding cp by simp
  from Cons.IH [OF this] p show ?case by simp
qed

lemma getc_cong: "columns a = columns b \<Longrightarrow> getc a = getc b"
  by (simp add: getc_def col_pos_def fun_eq_iff)

lemma nan_mask_cong: "columns a = columns b \<Longrightarrow> nan_mask a = nan_mask b"
  by (simp add: nan_mask_def fun_eq_iff getc_cong [of a b])

lemma null_island_mask_cong: "columns a = columns b \<Longrightarrow> null_island_mask a = null_island_mask b"
  by (simp add: null_island_mask_def fun_eq_iff getc_cong [of a b])

lemma masks_rows_update:
  "col_pos (d\<lparr>rows := rs\<rparr>) = col_pos d"
  "getc (d\<lparr>rows := rs\<rparr>) = getc d"
  "nan_mask (d\<lparr>rows := rs\<rparr>) = nan_mask d"
  "null_island_mask (d\<lparr>rows := rs\<rparr>) = null_island_mask d"
  by (simp_all add: col_pos_def getc_def nan_mask_def null_island_mask_def fun_eq_iff)

lemma clean_rows_Inr:
  assumes "clean_rows L df = Inr (kept, rn, ri)"
  shows "\<exists>df1. coerce_columns L numeric_cols (df\<lparr>columns := map lower_str (columns df)\<rparr>) = Inr df1 \<and>
     kept = df1\<lparr>rows := filter (\<lambda>(i, r). \<not> nan_mask df1 r \<and> \<not> null_island_mask df1 r) (rows df1)\<rparr> \<and>
     rn = df1\<lparr>rows := filter (\<lambda>(i, r). nan_mask df1 r) (rows df1)\<rparr> \<and>
     ri = df1\<lparr>rows := filter (\<lambda>(i, r). \<not> nan_mask df1 r \<and> null_island_mask df1 r) (rows df1)\<rparr>"
proof -
  from assms obtain df1 where
    c: "coerce_columns L numeric_cols (df\<lparr>columns := map lower_str (columns df)\<rparr>) = Inr df1"
    by (cases "coerce_columns L numeric_cols (df\<lparr>columns := map lower_str (columns df)\<rparr>)")
      (auto simp: clean_rows_def then_do_def)
  from assms show ?thesis
    unfolding clean_rows_def c then_do_def Let_def
    by (auto simp: case_prod_unfold masks_rows_update intro: filter_cong)
qed

lemma all_ids_length: "all_ids L d rs = Inr ids \<Longrightarrow> length ids = length rs"
proof (induction rs arbitrary: ids)
  case Nil
  then show ?case by simp
next
  case (Cons x rs)
  obtain i r where x: "x = (i, r)" by (cases x)
  from Cons.prems obtain y ys where "all_ids L d rs = Inr ys" "ids = y # ys"
    unfolding x by (auto simp: then_do_Inr)
  with Cons.IH show ?case by simp
qed

lemma map_fst_zip_rows:
  "length vs = length rs \<Longrightarrow> map fst (map (\<lambda>((i, r), v). (i, f r v)) (zip rs vs)) = map fst rs"
  by (induction rs vs rule: list_induct2') auto

lemma rows_set_column_values:
  "length vs = length (rows d) \<Longrightarrow> map fst (rows (set_column_values c vs d)) = map fst (rows d)"
  using map_fst_zip_rows [of vs "rows d"]
  by (auto simp: set_column_values_def simp del: map_map split: option.splits)

lemma rows_select_columns: "map fst (rows (select_columns cs d)) = map fst (rows d)"
  by (simp add: select_columns_def case_prod_unfold)

lemma standardize_index:
  assumes "standardize L kept = Inr valid"
  shows "map fst (rows valid) = map fst (rows kept)"
proof -
  from assms obtain ids where
    i: "all_ids L (kept\<lparr>columns := map rename_col (columns kept)\<rparr>) (rows kept) = Inr ids"
    and v: "valid = select_columns
        (filter (\<lambda>c. c \<in> set (columns (set_column_values ''id'' (map Str ids)
             (kept\<lparr>columns := map rename_col (columns kept)\<rparr>)))) final_columns)
        (set_column_values ''id'' (map Str ids) (kept\<lparr>columns := map rename_col (columns kept)\<rparr>))"
    by (auto simp: standardize_def Let_def then_do_Inr)
  from all_ids_length [OF i] show ?thesis
    unfolding v by (simp add: rows_select_columns rows_set_column_values)
qed

lemma clean_Inr:
  "clean L df = Inr (valid, rn, ri) \<longleftrightarrow>
     (\<exists>kept. clean_rows L df = Inr (kept, rn, ri) \<and> standardize L kept = Inr valid)"
  by (auto simp: clean_def then_do_Inr)

lemma coerce_columns_index:
  "coerce_columns L cs d = Inr d' \<Longrightarrow> map fst (rows d') = map fst (rows d) \<and> columns d' = columns d"
  by (drule coerce_columns_Inr) (auto simp: case_prod_unfold)

lemma mset_three_way:
  "mset (map f (filter (\<lambda>x. \<not> P x \<and> \<not> Q x) xs)) + mset (map f (filter P xs)) +
     mset (map f (filter (\<lambda>x. \<not> P x \<and> Q x) xs)) = mset (map f xs)"
  by (induction xs) auto

text \<open>
  Claim C5. For every input on which the cleaning returns: no row is in both removed
  frames; every row removed for missing data has a missing numeric cell and no row removed
  for null island has one; the index labels of the valid records and of the two removed
  frames together are the index labels of the input, each as often as in the input; and
  when the labels of the input are distinct, as they are after \<^verbatim>\<open>pd.concat\<close> with
  \<^verbatim>\<open>ignore_index\<close>, the three sets of labels are pairwise disjoint.
\<close>

theorem removal_partition:
  assumes "clean L df = Inr (valid, rn, ri)"
  shows "set (rows rn) \<inter> set (rows ri) = {} \<and>
     list_all (\<lambda>(i, r). nan_mask rn r) (rows rn) \<and>
     list_all (\<lambda>(i, r). \<not> nan_mask ri r \<and> null_island_mask ri r) (rows ri) \<and>
     mset (map fst (rows valid)) + mset (map fst (rows rn)) + mset (map fst (rows ri)) =
       mset (map fst (rows df)) \<and>
     fst ` set (rows valid) \<union> fst ` set (rows rn) \<union> fst ` set (rows ri) = fst ` set (rows df) \<and>
     (distinct (map fst (rows df)) \<longrightarrow>
        fst ` set (rows rn) \<inter> fst ` set (rows ri) = {} \<and>
        fst ` set (rows valid) \<inter> fst ` set (rows rn) = {} \<and>
        fst ` set (rows valid) \<inter> fst ` set (rows ri) = {})"
proof -
  from assms obtain kept where k: "clean_rows L df = Inr (kept, rn, ri)"
    and s: "standardize L kept = Inr valid"
    by (auto simp: clean_Inr)
  from clean_rows_Inr [OF k] obtain df1 where
    c: "coerce_columns L numeric_cols (df\<lparr>columns := map lower_str (columns df)\<rparr>) = Inr df1"
    and kept: "kept = df1\<lparr>rows := filter (\<lambda>(i, r). \<not> nan_mask df1 r \<and> \<not> null_island_mask df1 r) (rows df1)\<rparr>"
    and rn: "rn = df1\<lparr>rows := filter (\<lambda>(i, r). nan_mask df1 r) (rows df1)\<rparr>"
    and ri: "ri = df1\<lparr>rows := filter (\<lambda>(i, r). \<not> nan_mask df1 r \<and> null_island_mask df1 r) (rows df1)\<rparr>"
    by blast
  have ix: "map fst (rows df1) = map fst (rows df)"
    using coerce_columns_index [OF c] by simp
  have d1: "set (rows rn) \<inter> set (rows ri) = {}"
    unfolding rn ri by auto
  have d2: "list_all (\<lambda>(i, r). nan_mask rn r) (rows rn)"
    unfolding rn by (auto simp: list_all_iff masks_rows_update)
  have d3: "list_all (\<lambda>(i, r). \<not> nan_mask ri r \<and> null_island_mask ri r) (rows ri)"
    unfolding ri by (auto simp: list_all_iff masks_rows_update)
  have "mset (map fst (rows kept)) + mset (map fst (rows rn)) + mset (map fst (rows ri)) =
      mset (map fst (rows df1))"
    unfolding kept rn ri
    using mset_three_way [of fst "\<lambda>(i, r). nan_mask df1 r" "\<lambda>(i, r). null_island_mask df1 r" "rows df1"]
    by (simp add: case_prod_unfold)
  then have d4: "mset (map fst (rows valid)) + mset (map fst (rows rn)) + mset (map fst (rows ri)) =
      mset (map fst (rows df))"
    by (simp only: standardize_index [OF s] ix)
  then have m: "mset (map fst (rows valid) @ map fst (rows rn) @ map fst (rows ri)) = mset (map fst (rows df))"
    by (simp add: ac_simps)
  from mset_eq_setD [OF m]
  have d5: "fst ` set (rows valid) \<union> fst ` set (rows rn) \<union> fst ` set (rows ri) = fst ` set (rows df)"
    by (simp add: Un_assoc)
  have d6: "fst ` set (rows rn) \<inter> fst ` set (rows ri) = {} \<and>
        fst ` set (rows valid) \<inter> fst ` set (rows rn) = {} \<and>
        fst ` set (rows valid) \<inter> fst ` set (rows ri) = {}"
    if "distinct (map fst (rows df))"
  proof -
    from that mset_eq_imp_distinct_iff [OF m]
    have "distinct (map fst (rows valid) @ map fst (rows rn) @ map fst (rows ri))" by simp
    then show ?thesis by (auto simp: Int_Un_distrib)
  qed
  from d1 d2 d3 d4 d5 d6 show ?thesis by blast
qed

lemma lower_schema: "map lower_str (expected_columns @ [''Month'', ''Year'']) = clean_columns"
  by code_simp

lemma rename_schema: "map rename_col clean_columns = renamed_columns"
  by (simp add: clean_columns_def renamed_columns_def rename_col_def)

lemma col_pos_clean:
  assumes "columns d = clean_columns"
  shows "col_pos d ''latitude'' = Some 1" "col_pos d ''longitude'' = Some 2"
    "col_pos d ''depth'' = Some 3" "col_pos d ''magnitude'' = Some 4"
  using assms by (simp_all add: col_pos_def clean_columns_def)

lemma col_pos_renamed:
  assumes "columns d = renamed_columns"
  shows "col_pos d ''datetime'' = Some 0" "col_pos d ''latitude'' = Some 1"
    "col_pos d ''longitude'' = Some 2" "col_pos d ''magnitude'' = Some 4" "col_pos d ''id'' = None"
  using assms by (simp_all add: col_pos_def renamed_columns_def)

lemma getc_clean:
  assumes "columns d = clean_columns"
  shows "getc d r ''latitude'' = cell_at r 1" "getc d r ''longitude'' = cell_at r 2"
    "getc d r ''depth'' = cell_at r 3" "getc d r ''magnitude'' = cell_at r 4"
  by (simp_all add: getc_def col_pos_clean [OF assms])

lemma nan_mask_clean:
  assumes "columns d = clean_columns"
  shows "nan_mask d r \<longleftrightarrow> cell_at r 1 = NaN \<or> cell_at r 2 = NaN \<or> cell_at r 3 = NaN \<or> cell_at r 4 = NaN"
  by (simp add: nan_mask_def numeric_cols_def getc_clean [OF assms] isnull_def)

lemma null_island_clean:
  assumes "columns d = clean_columns"
  shows "null_island_mask d r \<longleftrightarrow> cell_at r 1 = Num 0 \<and> cell_at r 2 = Num 0"
  by (simp add: null_island_mask_def getc_clean [OF assms])

lemma coerce_schema:
  assumes "columns d = clean_columns"
  shows "coerce_columns L numeric_cols d =
    Inr (d\<lparr>rows := map (\<lambda>(i, r). (i, coerce_row L [1, 2, 3, 4] r)) (rows d)\<rparr>)"
proof -
  have "\<forall>c \<in> set numeric_cols. col_pos d c \<noteq> None"
    by (simp add: numeric_cols_def col_pos_clean [OF assms])
  from coerce_columns_ok [OF this] obtain d' where d': "coerce_columns L numeric_cols d = Inr d'"
    by blast
  from coerce_columns_Inr [OF d'] show ?thesis
    unfolding d' by (simp add: numeric_cols_def col_pos_clean [OF assms])
qed

lemma coerced_cell_cases:
  "p \<in> set ps \<Longrightarrow> cell_at (coerce_row L ps r) p = NaN \<or> (\<exists>q. cell_at (coerce_row L ps r) p = Num q)"
  by (cases "to_numeric L (cell_at r p)") (auto simp: cell_at_coerce_row to_numeric_not_Str)

lemma clean_rows_schema:
  assumes "columns df = expected_columns @ [''Month'', ''Year'']"
  shows "\<exists>kept rn ri. clean_rows L df = Inr (kept, rn, ri) \<and> columns kept = clean_columns \<and>
     list_all (\<lambda>(i, r). numeric_row r) (rows kept)"
proof -
  let ?d0 = "df\<lparr>columns := map lower_str (columns df)\<rparr>"
  have c0: "columns ?d0 = clean_columns" using assms lower_schema by simp
  let ?df1 = "?d0\<lparr>rows := map (\<lambda>(i, r). (i, coerce_row L [1, 2, 3, 4] r)) (rows ?d0)\<rparr>"
  have c1: "columns ?df1 = clean_columns" using c0 by simp
  let ?kept = "?df1\<lparr>rows := filter (\<lambda>(i, r). \<not> nan_mask ?df1 r \<and> \<not> null_island_mask ?df1 r) (rows ?df1)\<rparr>"
  have e: "clean_rows L df = Inr (?kept,
      ?df1\<lparr>rows := filter (\<lambda>(i, r). nan_mask ?df1 r) (rows ?df1)\<rparr>,
      ?df1\<lparr>rows := filter (\<lambda>(i, r). \<not> nan_mask ?df1 r \<and> null_island_mask ?df1 r) (rows ?df1)\<rparr>)"
    unfolding clean_rows_def coerce_schema [OF c0] then_do_def Let_def
    by (auto simp: masks_rows_update case_prod_unfold intro: filter_cong)
  have "numeric_row r" if "(i, r) \<in> set (rows ?kept)" for i r
  proof -
    from that obtain r0 where r: "r = coerce_row L [1, 2, 3, 4] r0"
      and n: "\<not> nan_mask ?df1 r" and z: "\<not> null_island_mask ?df1 r"
      by auto
    from n nan_mask_clean [OF c1, of r]
    have nn: "cell_at r 1 \<noteq> NaN" "cell_at r 2 \<noteq> NaN" "cell_at r 3 \<noteq> NaN" "cell_at r 4 \<noteq> NaN"
      by blast+
    from coerced_cell_cases [of 1 "[1, 2, 3, 4]" L r0] nn(1) obtain a where a: "cell_at r 1 = Num a"
      unfolding r by auto
    from coerced_cell_cases [of 2 "[1, 2, 3, 4]" L r0] nn(2) obtain b where b: "cell_at r 2 = Num b"
      unfolding r by auto
    from coerced_cell_cases [of 3 "[1, 2, 3, 4]" L r0] nn(3) obtain c where c: "cell_at r 3 = Num c"
      unfolding r by auto
    from coerced_cell_cases [of 4 "[1, 2, 3, 4]" L r0] nn(4) obtain d where d: "cell_at r 4 = Num d"
      unfolding r by auto
    from z a b null_island_clean [OF c1, of r] have "\<not> (a = 0 \<and> b = 0)"
      by blast
    with a b c d show ?thesis unfolding numeric_row_def by blast
  qed
  then have la: "list_all (\<lambda>(i, r). numeric_row r) (rows ?kept)"
    unfolding list_all_iff by blast
  have ck: "columns ?kept = clean_columns" using c1 by simp
  from e ck la show ?thesis by blast
qed

lemma cell_at_append: "cell_at r p = Num a \<Longrightarrow> cell_at (r @ xs) p = Num a"
  by (auto simp: cell_at_def nth_append split: if_splits)

lemma make_id_ok:
  assumes "columns d = renamed_columns" "numeric_row r"
  shows "\<exists>s. make_id L d r = Inr s"
proof -
  from assms(2) obtain a b where "cell_at r 1 = Num a" "cell_at r 2 = Num b"
    unfolding numeric_row_def by blast
  then show ?thesis
    by (simp add: make_id_def lookup_def col_pos_renamed [OF assms(1)] then_do_def fmt4_cell_def)
qed

lemma all_ids_ok:
  assumes "columns d = renamed_columns"
  shows "list_all (\<lambda>(i, r). numeric_row r) rs \<Longrightarrow> \<exists>ids. all_ids L d rs = Inr ids"
proof (induction rs)
  case Nil
  then show ?case by simp
next
  case (Cons x rs)
  obtain i r where x: "x = (i, r)" by (cases x)
  from Cons.prems x have "numeric_row r" by simp
  from make_id_ok [OF assms this] obtain s where s: "make_id L d r = Inr s" by blast
  from Cons obtain ids where "all_ids L d rs = Inr ids" by auto
  with s show ?case unfolding x by (simp add: then_do_def)
qed

lemma getc_final:
  assumes "columns v = final_columns" "columns d = renamed_columns @ [''id'']"
  shows "getc v (map (getc d r) final_columns) ''latitude'' = cell_at r 1"
    "getc v (map (getc d r) final_columns) ''longitude'' = cell_at r 2"
    "getc v (map (getc d r) final_columns) ''depth_km'' = cell_at r 3"
    "getc v (map (getc d r) final_columns) ''magnitude'' = cell_at r 4"
  using assms
  by (simp_all add: getc_def col_pos_def final_columns_def renamed_columns_def cell_at_def
      eval_nat_numeral)

lemma standardize_schema:
  assumes "columns kept = clean_columns" "list_all (\<lambda>(i, r). numeric_row r) (rows kept)"
  shows "\<exists>valid. standardize L kept = Inr valid \<and> columns valid = final_columns \<and>
     list_all (\<lambda>(i, r). good_record valid r) (rows valid)"
proof -
  let ?d1 = "kept\<lparr>columns := map rename_col (columns kept)\<rparr>"
  have c1: "columns ?d1 = renamed_columns" using assms(1) rename_schema by simp
  from all_ids_ok [OF c1, of "rows kept" L] assms(2)
  obtain ids where ids: "all_ids L ?d1 (rows ?d1) = Inr ids" by auto
  let ?d2 = "set_column_values ''id'' (map Str ids) ?d1"
  have d2: "?d2 = \<lparr>columns = renamed_columns @ [''id''],
      rows = map (\<lambda>((i, r), v). (i, r @ [v])) (zip (rows kept) (map Str ids))\<rparr>"
    using c1 by (simp add: set_column_values_def col_pos_renamed)
  let ?v = "select_columns final_columns ?d2"
  have fc: "filter (\<lambda>c. c \<in> set (columns ?d2)) final_columns = final_columns"
    unfolding d2 by (simp add: renamed_columns_def final_columns_def)
  have e: "standardize L kept = Inr ?v"
    unfolding standardize_def Let_def ids then_do_def by (simp only: sum.case fc)
  have cv: "columns ?v = final_columns" by (simp add: select_columns_def)
  have "good_record ?v r'" if "(i, r') \<in> set (rows ?v)" for i r'
  proof -
    from that obtain r2 where r2: "(i, r2) \<in> set (rows ?d2)" and r': "r' = map (getc ?d2 r2) final_columns"
      by (auto simp: select_columns_def)
    from r2 obtain r x where r: "(i, r) \<in> set (rows kept)" and rx: "r2 = r @ [x]"
      unfolding d2 by (auto dest: set_zip_leftD)
    from r assms(2) have "numeric_row r" by (auto simp: list_all_iff)
    then obtain a b c d where n: "cell_at r 1 = Num a" "cell_at r 2 = Num b" "cell_at r 3 = Num c"
      "cell_at r 4 = Num d" "\<not> (a = 0 \<and> b = 0)"
      unfolding numeric_row_def by blast
    have cd: "columns ?d2 = renamed_columns @ [''id'']" by (simp add: d2)
    show ?thesis
      unfolding good_record_def r' getc_final [OF cv cd] rx
      using n by (auto simp: cell_at_append)
  qed
  then have "list_all (\<lambda>(i, r). good_record ?v r) (rows ?v)"
    unfolding list_all_iff by blast
  with e cv show ?thesis by blast
qed

text \<open>
  Claim C1. On every frame with the labels that the normalizer produces, the cleaning
  returns (it raises nothing), and every record of the valid frame it returns has a number
  in each of latitude, longitude, depth\_km and magnitude, and does not have both latitude 0
  and longitude 0.
\<close>

theorem valid_records_invariant:
  assumes "columns df = expected_columns @ [''Month'', ''Year'']"
  shows "\<exists>valid rn ri. clean L df = Inr (valid, rn, ri) \<and> columns valid = final_columns \<and>
     list_all (\<lambda>(i, r). \<exists>la lo de ma.
         getc valid r ''latitude'' = Num la \<and> getc valid r ''longitude'' = Num lo \<and>
         getc valid r ''depth_km'' = Num de \<and> getc valid r ''magnitude'' = Num ma \<and>
         \<not> (la = 0 \<and> lo = 0)) (rows valid)"
proof -
  from clean_rows_schema [OF assms, of L] obtain kept rn ri where
    k: "clean_rows L df = Inr (kept, rn, ri)" "columns kept = clean_columns"
    "list_all (\<lambda>(i, r). numeric_row r) (rows kept)"
    by blast
  from standardize_schema [OF k(2,3), of L] obtain valid where
    v: "standardize L kept = Inr valid" "columns valid = final_columns"
    "list_all (\<lambda>(i, r). good_record valid r) (rows valid)"
    by blast
  from k(1) v(1) have "clean L df = Inr (valid, rn, ri)"
    by (simp add: clean_def then_do_def)
  with v(2,3) show ?thesis
    unfolding good_record_def by blast
qed

lemma py_lower_idem: "py_lower (py_lower c) = py_lower c"
  unfolding py_lower_def Let_def
  by (auto simp: of_char_of)

lemma lower_str_idem: "lower_str (lower_str s) = lower_str s"
  by (simp add: lower_str_def py_lower_idem)

lemma filter_rows_all: "\<forall>x \<in> set xs. P x \<Longrightarrow> filter P xs = xs"
  by (induction xs) auto

lemma filter_rows_none: "\<forall>x \<in> set xs. \<not> P x \<Longrightarrow> filter P xs = []"
  by (induction xs) auto

text \<open>
  Claim C6, as amended. The cleaning cannot be applied to its own valid frame: it has
  renamed the column \<^verbatim>\<open>depth\<close> to \<^verbatim>\<open>depth_km\<close> and the second run raises KeyError at
  line 245 (see the counterexample below). What holds is the idempotence of the row
  filter, lines 237 to 259 (the lower-casing of the labels, the coercion and the two
  removals): applied to the rows it kept, it returns them unchanged and removes none.
\<close>

theorem row_filter_idempotent:
  assumes "clean_rows L df = Inr (kept, rn, ri)"
  shows "clean_rows L kept = Inr (kept, kept\<lparr>rows := []\<rparr>, kept\<lparr>rows := []\<rparr>)"
proof -
  let ?d0 = "df\<lparr>columns := map lower_str (columns df)\<rparr>"
  from clean_rows_Inr [OF assms] obtain df1 where
    c: "coerce_columns L numeric_cols ?d0 = Inr df1"
    and kept: "kept = df1\<lparr>rows := filter (\<lambda>(i, r). \<not> nan_mask df1 r \<and> \<not> null_island_mask df1 r) (rows df1)\<rparr>"
    by blast
  from coerce_columns_Inr [OF c] have pres: "\<forall>c \<in> set numeric_cols. col_pos ?d0 c \<noteq> None"
    and df1: "df1 = ?d0\<lparr>rows := map (\<lambda>(i, r). (i, coerce_row L (map (\<lambda>c. the (col_pos ?d0 c)) numeric_cols) r)) (rows ?d0)\<rparr>"
    by blast+
  let ?ps = "map (\<lambda>c. the (col_pos ?d0 c)) numeric_cols"
  have cols: "columns kept = map lower_str (columns df)"
    unfolding kept df1 by simp
  have cp: "col_pos kept = col_pos ?d0" "col_pos df1 = col_pos ?d0"
    unfolding kept df1 by (simp_all add: col_pos_def fun_eq_iff)
  have "map lower_str (columns kept) = columns kept"
    unfolding cols by (simp add: lower_str_idem)
  then have k0: "kept\<lparr>columns := map lower_str (columns kept)\<rparr> = kept"
    by simp
  have num: "\<exists>q. cell_at r p = Num q" if "(i, r) \<in> set (rows kept)" "p \<in> set ?ps" for i r p
  proof -
    from that(1) obtain r0 where r: "r = coerce_row L ?ps r0" and n: "\<not> nan_mask df1 r"
      unfolding kept by (auto simp: df1)
    from that(2) obtain c where cc: "c \<in> set numeric_cols" "p = the (col_pos ?d0 c)" by auto
    with pres obtain p' where p': "col_pos ?d0 c = Some p'" by auto
    from n cc(1) have "getc df1 r c \<noteq> NaN"
      by (auto simp: nan_mask_def list_ex_iff isnull_def)
    then have "cell_at r p \<noteq> NaN"
      using cc(2) p' by (simp add: getc_def cp)
    with coerced_cell_cases [OF that(2), of L r0] show ?thesis
      unfolding r by blast
  qed
  have same: "map (\<lambda>(i, r). (i, coerce_row L ?ps r)) (rows kept) = rows kept"
  proof (rule map_idI)
    fix x assume x: "x \<in> set (rows kept)"
    obtain i r where xr: "x = (i, r)" by (cases x)
    from num x xr have "\<forall>p \<in> set ?ps. \<exists>q. cell_at r p = Num q" by blast
    from coerce_row_id [OF this] show "(case x of (i, r) \<Rightarrow> (i, coerce_row L ?ps r)) = x"
      unfolding xr by simp
  qed
  from pres have "\<forall>c \<in> set numeric_cols. col_pos kept c \<noteq> None" by (simp add: cp)
  from coerce_columns_ok [OF this] obtain d' where d': "coerce_columns L numeric_cols kept = Inr d'"
    by blast
  from coerce_columns_Inr [OF d'] have "d' = kept"
    unfolding cp same by simp
  with d' have co: "coerce_columns L numeric_cols kept = Inr kept" by simp
  have nn: "\<not> nan_mask kept r \<and> \<not> null_island_mask kept r" if "(i, r) \<in> set (rows kept)" for i r
  proof -
    have m: "nan_mask kept = nan_mask df1" "null_island_mask kept = null_island_mask df1"
      unfolding kept by (simp_all add: masks_rows_update)
    from that show ?thesis unfolding m unfolding kept by auto
  qed
  have f1: "filter (\<lambda>(i, r). nan_mask kept r) (rows kept) = []"
    by (rule filter_rows_none) (use nn in auto)
  have f2: "filter (\<lambda>(i, r). \<not> nan_mask kept r) (rows kept) = rows kept"
    by (rule filter_rows_all) (use nn in auto)
  have f3: "filter (\<lambda>(i, r). \<not> nan_mask kept r \<and> null_island_mask kept r) (rows kept) = []"
    by (rule filter_rows_none) (use nn in auto)
  have f4: "filter (\<lambda>(i, r). \<not> null_island_mask kept r) (rows kept) = rows kept"
    by (rule filter_rows_all) (use nn in auto)
  show ?thesis
    unfolding clean_rows_def k0 co then_do_def Let_def
    by (simp add: masks_rows_update f1 f2 f3 f4)
qed

lemma year_rows_eval: "clean_rows L0 year_input = Inr (year_kept, year_missing, year_island)"
  by code_simp

lemma year_std_eval: "standardize L0 year_kept = Inr year_valid"
  by code_simp

lemma year_clean_eval: "clean L0 year_input = Inr (year_valid, year_missing, year_island)"
  by (simp add: clean_def then_do_def year_rows_eval year_std_eval)

lemma lower_final_eval: "map lower_str (columns year_valid) = columns year_valid"
  by code_simp

lemma year_again_eval: "clean L0 year_valid = Inl (KeyError ''depth'')"
proof -
  have "coerce_columns L0 numeric_cols (year_valid\<lparr>columns := map lower_str (columns year_valid)\<rparr>)
      = Inl (KeyError ''depth'')"
    unfolding lower_final_eval
    by (simp add: numeric_cols_def col_pos_def year_valid_def)
  then show ?thesis
    by (simp add: clean_def clean_rows_def then_do_def)
qed

theorem clean_twice_counterexample:
  "clean L0 year_input = Inr (year_valid, year_missing, year_island) \<and>
   clean L0 year_valid = Inl (KeyError ''depth'')"
  using year_clean_eval year_again_eval by simp

theorem row_filter_idempotent_witness:
  "clean_rows L0 year_input = Inr (year_kept, year_missing, year_island) \<and>
   clean_rows L0 year_kept = Inr (year_kept, year_kept\<lparr>rows := []\<rparr>, year_kept\<lparr>rows := []\<rparr>)"
  using row_filter_idempotent [OF year_rows_eval] year_rows_eval by simp

theorem removal_partition_witness:
  "clean L0 year_input = Inr (year_valid, year_missing, year_island) \<and>
   set (rows year_missing) \<inter> set (rows year_island) = {} \<and>
   list_all (\<lambda>(i, r). nan_mask year_missing r) (rows year_missing) \<and>
   list_all (\<lambda>(i, r). \<not> nan_mask year_island r \<and> null_island_mask year_island r) (rows year_island) \<and>
   mset (map fst (rows year_valid)) + mset (map fst (rows year_missing)) + mset (map fst (rows year_island)) =
     mset (map fst (rows year_input)) \<and>
   fst ` set (rows year_valid) \<union> fst ` set (rows year_missing) \<union> fst ` set (rows year_island) =
     fst ` set (rows year_input) \<and>
   distinct (map fst (rows year_input)) \<and>
   fst ` set (rows year_missing) \<inter> fst ` set (rows year_island) = {} \<and>
   fst ` set (rows year_valid) \<inter> fst ` set (rows year_missing) = {} \<and>
   fst ` set (rows year_valid) \<inter> fst ` set (rows year_island) = {}"
proof -
  have d: "distinct (map fst (rows year_input))"
    by (simp add: year_input_def)
  show ?thesis
    using removal_partition [OF year_clean_eval] year_clean_eval d by iprover
qed

theorem valid_records_invariant_witness:
  "columns year_input = expected_columns @ [''Month'', ''Year''] \<and>
   clean L0 year_input = Inr (year_valid, year_missing, year_island) \<and>
   (\<exists>valid rn ri. clean L0 year_input = Inr (valid, rn, ri) \<and> columns valid = final_columns \<and>
     list_all (\<lambda>(i, r). \<exists>la lo de ma.
         getc valid r ''latitude'' = Num la \<and> getc valid r ''longitude'' = Num lo \<and>
         getc valid r ''depth_km'' = Num de \<and> getc valid r ''magnitude'' = Num ma \<and>
         \<not> (la = 0 \<and> lo = 0)) (rows valid))"
proof -
  have c: "columns year_input = expected_columns @ [''Month'', ''Year'']"
    by (simp add: year_input_def expected_columns_def)
  show ?thesis
    using valid_records_invariant [OF c, of L0] c year_clean_eval by blast
qed

section \<open>Properties of the fetching and of the months of a year\<close>

lemma table_pipeline_Some:
  assumes "table_pipeline L tables m y = Some out"
  shows "columns out = expected_columns @ [''Month'', ''Year''] \<and>
     list_all (\<lambda>(i, r). \<exists>r0. r = r0 @ [m, y]) (rows out)"
proof -
  from assms obtain df where f: "find_table tables = Some df"
    by (auto simp: table_pipeline_def split: option.splits)
  from assms f have ne: "\<not> df_empty df"
    by (auto simp: table_pipeline_def split: if_splits)
  from assms f have w: "6 \<le> length (columns df)"
    using table_pipeline_narrow [OF f, of L m y] by (cases "length (columns df) < 6") auto
  from assms table_pipeline_rows [OF f ne w, of L m y]
  show ?thesis
    by (auto simp: list_all_iff)
qed

lemma get_tables_404: "get_tables (Response 404 body) = Inl (HTTPError 404)"
  by (simp add: get_tables_def raise_for_status_def)

lemma get_tables_error:
  "400 \<le> st \<Longrightarrow> st < 600 \<Longrightarrow> get_tables (Response st body) = Inl (HTTPError st)"
  by (simp add: get_tables_def raise_for_status_def)

lemma get_tables_no_response: "get_tables No_response = Inl Other_exception"
  by (simp add: get_tables_def)

lemma main_page_requests:
  "snd (scrape_current_month_from_main_page W L reqs) = reqs @ [Main_page]"
  by (simp add: scrape_current_month_from_main_page_def split: sum.splits)

lemma main_page_labels:
  assumes "fst (scrape_current_month_from_main_page W L reqs) = Some df"
  shows "columns df = expected_columns @ [''Month'', ''Year''] \<and>
     list_all (\<lambda>(i, r). \<exists>r0. r = r0 @ [Str (now_month W), Num (of_int (now_year W))]) (rows df)"
proof -
  from assms obtain tables where
    "table_pipeline L tables (Str (now_month W)) (Num (of_int (now_year W))) = Some df"
    by (auto simp: scrape_current_month_from_main_page_def split: sum.splits)
  then show ?thesis by (rule table_pipeline_Some)
qed

lemma monthly_404:
  assumes "net W (length reqs) (Monthly_page year month_name) = Response 404 body"
  shows "scrape_phivolcs_data_from_html W L year month_name reqs =
     scrape_current_month_from_main_page W L (reqs @ [Monthly_page year month_name])"
  by (simp add: scrape_phivolcs_data_from_html_def assms get_tables_404)

lemma monthly_other_failure:
  assumes "net W (length reqs) (Monthly_page year month_name) = No_response \<or>
     (\<exists>st body. net W (length reqs) (Monthly_page year month_name) = Response st body \<and>
        400 \<le> st \<and> st < 600 \<and> st \<noteq> 404)"
  shows "scrape_phivolcs_data_from_html W L year month_name reqs =
     (None, reqs @ [Monthly_page year month_name])"
  using assms
  by (auto simp: scrape_phivolcs_data_from_html_def get_tables_error get_tables_no_response)

text \<open>
  Claim C10. When the monthly page answers 404, the result is the result of the front-page
  scrape, and every row of a frame it returns ends with the two metadata cells Month and
  Year taken from the clock (the current month name and the current year); the year and
  the month that were asked for do not occur in it.
\<close>

theorem fallback_labels_from_clock:
  assumes "net W (length reqs) (Monthly_page year month_name) = Response 404 body"
  shows "scrape_phivolcs_data_from_html W L year month_name reqs =
       scrape_current_month_from_main_page W L (reqs @ [Monthly_page year month_name]) \<and>
     (\<forall>df. fst (scrape_phivolcs_data_from_html W L year month_name reqs) = Some df \<longrightarrow>
        columns df = expected_columns @ [''Month'', ''Year''] \<and>
        list_all (\<lambda>(i, r). \<exists>r0. r = r0 @ [Str (now_month W), Num (of_int (now_year W))]) (rows df))"
  using monthly_404 [OF assms] main_page_labels by simp

lemma skip_remainder:
  "current_month_found s \<Longrightarrow>
   months_loop W L year ms s = s\<lparr>failed_months := failed_months s @ ms\<rparr>"
proof (induction ms arbitrary: s)
  case Nil
  then show ?case by simp
next
  case (Cons m ms)
  let ?s = "s\<lparr>failed_months := failed_months s @ [m]\<rparr>"
  from Cons.prems have st: "month_step W L year s m = ?s" by (simp add: month_step_def)
  from Cons.prems have "current_month_found ?s" by simp
  from Cons.IH [OF this] show ?case by (simp add: st)
qed

lemma month_step_active:
  assumes "\<not> current_month_found s"
  shows "month_step W L year s m =
    (let (r, reqs1) = scrape_phivolcs_data_from_html W L year m (requests s)
     in if no_rows r
        then s\<lparr>failed_months := failed_months s @ [m], current_month_found := (year = now_year W),
               requests := reqs1\<rparr>
        else s\<lparr>all_data := all_data s @ [the r], successful_months := successful_months s @ [m],
               current_month_found := (year = now_year W \<and> m = now_month W), requests := reqs1\<rparr>)"
  using assms
  by (auto simp: month_step_def month_failed_def no_rows_def split: prod.splits option.splits)

text \<open>
  Claim C8, as amended. In the active state, a month whose page answers 404 makes two
  requests, the monthly page and then the front page. After it the rest of the year is
  skipped exactly when the year is the current year and either the month is the current
  month or the front page gave no rows. Once the flag is set, every later month is only
  added to the failed months: no request is made and no data is added.
\<close>

theorem not_found_fallback:
  assumes "\<not> current_month_found s"
    and "net W (length (requests s)) (Monthly_page year m) = Response 404 body"
  shows "requests (month_step W L year s m) = requests s @ [Monthly_page year m, Main_page] \<and>
     (current_month_found (month_step W L year s m) \<longleftrightarrow>
        year = now_year W \<and>
        (m = now_month W \<or>
         no_rows (fst (scrape_current_month_from_main_page W L (requests s @ [Monthly_page year m]))))) \<and>
     (\<forall>s' ms. current_month_found s' \<longrightarrow>
        months_loop W L year ms s' = s'\<lparr>failed_months := failed_months s' @ ms\<rparr>)"
proof -
  let ?f = "scrape_current_month_from_main_page W L (requests s @ [Monthly_page year m])"
  have e: "scrape_phivolcs_data_from_html W L year m (requests s) = ?f"
    by (rule monthly_404 [OF assms(2)])
  have r: "snd ?f = requests s @ [Monthly_page year m, Main_page]"
    by (simp add: main_page_requests)
  show ?thesis
    unfolding month_step_active [OF assms(1)] e
    using r by (auto simp: case_prod_unfold Let_def skip_remainder)
qed

text \<open>
  Claim C7, as amended. A monthly page that answers 404 leads to the front-page scrape,
  with the two requests in this order. A monthly page that does not answer, or answers with
  another status from 400 to 599, gives no frame and no further request, and the month is
  recorded as failed, with the data and the successful months unchanged. The functions
  return a value on every reply: the handlers of lines 94 and 177 to 187 catch every
  exception. A status outside 200 to 299 and outside 400 to 599 is not an error for
  \<^verbatim>\<open>raise_for_status\<close>: its text is parsed like that of a 200 (see the counterexample below).
\<close>

theorem monthly_fetch_failures:
  "(net W (length reqs) (Monthly_page year m) = Response 404 body \<longrightarrow>
      scrape_phivolcs_data_from_html W L year m reqs =
        scrape_current_month_from_main_page W L (reqs @ [Monthly_page year m]) \<and>
      snd (scrape_phivolcs_data_from_html W L year m reqs) = reqs @ [Monthly_page year m, Main_page]) \<and>
   (net W (length (requests s)) (Monthly_page year m) = No_response \<or>
    (\<exists>st body. net W (length (requests s)) (Monthly_page year m) = Response st body \<and>
        400 \<le> st \<and> st < 600 \<and> st \<noteq> 404) \<longrightarrow>
      scrape_phivolcs_data_from_html W L year m (requests s) = (None, requests s @ [Monthly_page year m]) \<and>
      (\<not> current_month_found s \<longrightarrow>
         failed_months (month_step W L year s m) = failed_months s @ [m] \<and>
         successful_months (month_step W L year s m) = successful_months s \<and>
         all_data (month_step W L year s m) = all_data s \<and>
         requests (month_step W L year s m) = requests s @ [Monthly_page year m]))"
proof (intro conjI impI)
  assume a: "net W (length reqs) (Monthly_page year m) = Response 404 body"
  show "scrape_phivolcs_data_from_html W L year m reqs =
        scrape_current_month_from_main_page W L (reqs @ [Monthly_page year m])"
    by (rule monthly_404 [OF a])
  then show "snd (scrape_phivolcs_data_from_html W L year m reqs) = reqs @ [Monthly_page year m, Main_page]"
    by (simp add: main_page_requests)
next
  assume a: "net W (length (requests s)) (Monthly_page year m) = No_response \<or>
    (\<exists>st body. net W (length (requests s)) (Monthly_page year m) = Response st body \<and>
        400 \<le> st \<and> st < 600 \<and> st \<noteq> 404)"
  show e: "scrape_phivolcs_data_from_html W L year m (requests s) = (None, requests s @ [Monthly_page year m])"
    by (rule monthly_other_failure [OF a])
  assume n: "\<not> current_month_found s"
  show "failed_months (month_step W L year s m) = failed_months s @ [m]"
    "successful_months (month_step W L year s m) = successful_months s"
    "all_data (month_step W L year s m) = all_data s"
    "requests (month_step W L year s m) = requests s @ [Monthly_page year m]"
    unfolding month_step_active [OF n] e by (simp_all add: no_rows_def)
qed

lemma six_table_kept_eval:
  "filter (\<lambda>r. \<not> drops L0 r) (map (kept_cells six_table) (map snd (rows six_table))) = [quake_row]"
  by code_simp

lemma six_table_pipeline: "table_pipeline L0 [six_table] m y = Some (page_frame m y)"
proof -
  have f: "find_table [six_table] = Some six_table" "\<not> df_empty six_table"
    "6 \<le> length (columns six_table)"
    by (simp_all add: six_table_def df_empty_def)
  show ?thesis
    unfolding table_pipeline_rows [OF f, of L0 m y] six_table_kept_eval page_frame_def
    by simp
qed

lemma W_nov_main:
  "scrape_current_month_from_main_page W_nov L0 reqs =
     (Some (page_frame (Str ''November'') (Num 2026)), reqs @ [Main_page])"
  by (simp add: scrape_current_month_from_main_page_def W_nov_def get_tables_def
      raise_for_status_def six_table_pipeline)

lemma W_nov_monthly: "net W_nov n (Monthly_page y m) = Response 404 None"
  by (simp add: W_nov_def)

lemma W_nov_clock: "now_year W_nov = 2026" "now_month W_nov = ''November''"
  by (simp_all add: W_nov_def)

lemma page_frame_rows: "\<not> no_rows (Some (page_frame m y))"
  by (simp add: no_rows_def df_empty_def page_frame_def expected_columns_def)

lemma W_nov_step:
  assumes "\<not> current_month_found s"
  shows "month_step W_nov L0 y s m =
    s\<lparr>all_data := all_data s @ [page_frame (Str ''November'') (Num 2026)],
      successful_months := successful_months s @ [m],
      current_month_found := (y = 2026 \<and> m = ''November''),
      requests := requests s @ [Monthly_page y m, Main_page]\<rparr>"
  unfolding month_step_active [OF assms] monthly_404 [OF W_nov_monthly] W_nov_main
  by (simp add: page_frame_rows W_nov_clock)

theorem fallback_labels_from_clock_witness:
  "net W_nov (length []) (Monthly_page 2020 ''January'') = Response 404 None \<and>
   scrape_phivolcs_data_from_html W_nov L0 2020 ''January'' [] =
     scrape_current_month_from_main_page W_nov L0 ([] @ [Monthly_page 2020 ''January'']) \<and>
   fst (scrape_phivolcs_data_from_html W_nov L0 2020 ''January'' []) =
     Some (page_frame (Str ''November'') (Num 2026)) \<and>
   columns (page_frame (Str ''November'') (Num 2026)) = expected_columns @ [''Month'', ''Year''] \<and>
   list_all (\<lambda>(i, r). \<exists>r0. r = r0 @ [Str (now_month W_nov), Num (of_int (now_year W_nov))])
     (rows (page_frame (Str ''November'') (Num 2026)))"
proof -
  have h: "net W_nov (length []) (Monthly_page 2020 ''January'') = Response 404 None"
    by (rule W_nov_monthly)
  have v: "fst (scrape_phivolcs_data_from_html W_nov L0 2020 ''January'' []) =
     Some (page_frame (Str ''November'') (Num 2026))"
    by (simp add: monthly_404 [OF h] W_nov_main)
  show ?thesis
    using fallback_labels_from_clock [OF h, of L0] h v by simp
qed

theorem skip_on_not_found_counterexample:
  "net W_nov 0 (Monthly_page 2020 ''January'') = Response 404 None \<and>
   \<not> current_month_found (month_step W_nov L0 2020 (init_state []) ''January'') \<and>
   requests (months_loop W_nov L0 2020 [''January'', ''February''] (init_state [])) =
     [Monthly_page 2020 ''January'', Main_page, Monthly_page 2020 ''February'', Main_page] \<and>
   failed_months (months_loop W_nov L0 2020 MONTH_NAMES (init_state [])) = [] \<and>
   length (requests (months_loop W_nov L0 2020 MONTH_NAMES (init_state []))) = 24"
  by (simp add: W_nov_monthly W_nov_step init_state_def MONTH_NAMES_def)

theorem not_found_fallback_witness:
  "\<not> current_month_found (init_state []) \<and>
   net W_nov (length (requests (init_state []))) (Monthly_page 2026 ''November'') = Response 404 None \<and>
   requests (month_step W_nov L0 2026 (init_state []) ''November'') =
     [Monthly_page 2026 ''November'', Main_page] \<and>
   current_month_found (month_step W_nov L0 2026 (init_state []) ''November'') \<and>
   months_loop W_nov L0 2026 [''December''] (month_step W_nov L0 2026 (init_state []) ''November'') =
     (month_step W_nov L0 2026 (init_state []) ''November'')
       \<lparr>failed_months := failed_months (month_step W_nov L0 2026 (init_state []) ''November'') @ [''December'']\<rparr> \<and>
   requests (months_loop W_nov L0 2026 [''December''] (month_step W_nov L0 2026 (init_state []) ''November'')) =
     [Monthly_page 2026 ''November'', Main_page]"
proof -
  have a: "\<not> current_month_found (init_state [])" by (simp add: init_state_def)
  have b: "net W_nov (length (requests (init_state []))) (Monthly_page 2026 ''November'') = Response 404 None"
    by (rule W_nov_monthly)
  note t = not_found_fallback [OF a b, of L0]
  have c: "current_month_found (month_step W_nov L0 2026 (init_state []) ''November'')"
    using t by (simp add: W_nov_clock)
  from t c have d: "months_loop W_nov L0 2026 [''December''] (month_step W_nov L0 2026 (init_state []) ''November'') =
     (month_step W_nov L0 2026 (init_state []) ''November'')
       \<lparr>failed_months := failed_months (month_step W_nov L0 2026 (init_state []) ''November'') @ [''December'']\<rparr>"
    by blast
  from t have e: "requests (month_step W_nov L0 2026 (init_state []) ''November'') =
     [Monthly_page 2026 ''November'', Main_page]"
    by (simp add: init_state_def)
  from a b c d e show ?thesis by simp
qed

theorem other_status_counterexample:
  "net W_redirect 0 (Monthly_page 2024 ''January'') = Response 300 (Some [six_table]) \<and>
   (300::nat) \<notin> {200..299} \<and> (300::nat) \<noteq> 404 \<and>
   fst (scrape_phivolcs_data_from_html W_redirect L0 2024 ''January'' []) =
     Some (page_frame (Str ''January'') (Num 2024)) \<and>
   successful_months (month_step W_redirect L0 2024 (init_state []) ''January'') = [''January''] \<and>
   failed_months (month_step W_redirect L0 2024 (init_state []) ''January'') = []"
proof -
  have s: "scrape_phivolcs_data_from_html W_redirect L0 2024 ''January'' [] =
      (Some (page_frame (Str ''January'') (Num 2024)), [Monthly_page 2024 ''January''])"
    by (simp add: scrape_phivolcs_data_from_html_def W_redirect_def get_tables_def
        raise_for_status_def six_table_pipeline)
  have n: "\<not> current_month_found (init_state [])" "requests (init_state []) = []"
    by (simp_all add: init_state_def)
  show ?thesis
    unfolding month_step_active [OF n(1)] n(2) s
    by (simp add: page_frame_rows W_redirect_def init_state_def)
qed

theorem monthly_fetch_failures_witness:
  "net W_nov (length []) (Monthly_page 2026 ''November'') = Response 404 None \<and>
   scrape_phivolcs_data_from_html W_nov L0 2026 ''November'' [] =
     scrape_current_month_from_main_page W_nov L0 ([] @ [Monthly_page 2026 ''November'']) \<and>
   snd (scrape_phivolcs_data_from_html W_nov L0 2026 ''November'' []) =
     [] @ [Monthly_page 2026 ''November'', Main_page] \<and>
   net W_down (length (requests (init_state []))) (Monthly_page 2024 ''March'') = Response 500 None \<and>
   scrape_phivolcs_data_from_html W_down L0 2024 ''March'' (requests (init_state [])) =
     (None, requests (init_state []) @ [Monthly_page 2024 ''March'']) \<and>
   failed_months (month_step W_down L0 2024 (init_state []) ''March'') =
     failed_months (init_state []) @ [''March''] \<and>
   successful_months (month_step W_down L0 2024 (init_state []) ''March'') = successful_months (init_state []) \<and>
   all_data (month_step W_down L0 2024 (init_state []) ''March'') = all_data (init_state []) \<and>
   requests (month_step W_down L0 2024 (init_state []) ''March'') =
     requests (init_state []) @ [Monthly_page 2024 ''March'']"
proof -
  have a: "net W_nov (length []) (Monthly_page 2026 ''November'') = Response 404 None"
    by (rule W_nov_monthly)
  have b: "net W_down (length (requests (init_state []))) (Monthly_page 2024 ''March'') = Response 500 None"
    by (simp add: W_down_def)
  have c: "\<not> current_month_found (init_state [])" by (simp add: init_state_def)
  have d: "net W_down (length (requests (init_state []))) (Monthly_page 2024 ''March'') = No_response \<or>
    (\<exists>st body. net W_down (length (requests (init_state []))) (Monthly_page 2024 ''March'') = Response st body \<and>
        400 \<le> st \<and> st < 600 \<and> st \<noteq> 404)"
    using b by simp
  from monthly_fetch_failures [of W_nov "[]" 2026 "''November''" None L0 "init_state []"] a
  have p1: "scrape_phivolcs_data_from_html W_nov L0 2026 ''November'' [] =
     scrape_current_month_from_main_page W_nov L0 ([] @ [Monthly_page 2026 ''November''])"
    "snd (scrape_phivolcs_data_from_html W_nov L0 2026 ''November'' []) =
     [] @ [Monthly_page 2026 ''November'', Main_page]"
    by iprover+
  from monthly_fetch_failures [of W_down "[]" 2024 "''March''" None L0 "init_state []"] c d
  have p2: "scrape_phivolcs_data_from_html W_down L0 2024 ''March'' (requests (init_state [])) =
     (None, requests (init_state []) @ [Monthly_page 2024 ''March''])"
    "failed_months (month_step W_down L0 2024 (init_state []) ''March'') =
     failed_months (init_state []) @ [''March'']"
    "successful_months (month_step W_down L0 2024 (init_state []) ''March'') = successful_months (init_state [])"
    "all_data (month_step W_down L0 2024 (init_state []) ''March'') = all_data (init_state [])"
    "requests (month_step W_down L0 2024 (init_state []) ''March'') =
     requests (init_state []) @ [Monthly_page 2024 ''March'']"
    by iprover+
  from a b p1 p2 show ?thesis by iprover
qed

section \<open>Properties of the file of a year\<close>

lemma scrape_result_columns:
  assumes "fst (scrape_phivolcs_data_from_html W L year m reqs) = Some df"
  shows "columns df = expected_columns @ [''Month'', ''Year'']"
proof (cases "get_tables (net W (length reqs) (Monthly_page year m))")
  case (Inr tables)
  with assms have "table_pipeline L tables (Str m) (Num (of_int year)) = Some df"
    by (simp add: scrape_phivolcs_data_from_html_def)
  from table_pipeline_Some [OF this] show ?thesis by simp
next
  case (Inl e)
  with assms have "fst (scrape_current_month_from_main_page W L (reqs @ [Monthly_page year m])) = Some df"
    by (cases e) (auto simp: scrape_phivolcs_data_from_html_def Let_def split: if_splits)
  from main_page_labels [OF this] show ?thesis by simp
qed

lemma month_step_ok:
  assumes "scraped_ok s"
  shows "scraped_ok (month_step W L year s m)"
proof (cases "current_month_found s")
  case True
  with assms show ?thesis by (simp add: month_step_def scraped_ok_def)
next
  case False
  obtain r reqs1 where e: "scrape_phivolcs_data_from_html W L year m (requests s) = (r, reqs1)"
    by (cases "scrape_phivolcs_data_from_html W L year m (requests s)")
  show ?thesis
  proof (cases "no_rows r")
    case True
    with assms show ?thesis
      unfolding month_step_active [OF False] e by (simp add: scraped_ok_def)
  next
    case nr: False
    then obtain df where df: "r = Some df" "\<not> df_empty df"
      by (auto simp: no_rows_def split: option.splits)
    from e df(1) have "fst (scrape_phivolcs_data_from_html W L year m (requests s)) = Some df" by simp
    from scrape_result_columns [OF this] df(2) have "columns df = expected_columns @ [''Month'', ''Year''] \<and> rows df \<noteq> []"
      by (simp add: df_empty_def)
    with assms nr df(1) show ?thesis
      unfolding month_step_active [OF False] e by (simp add: scraped_ok_def)
  qed
qed

lemma months_loop_ok: "scraped_ok s \<Longrightarrow> scraped_ok (months_loop W L year ms s)"
  by (induction ms arbitrary: s) (simp_all add: month_step_ok)

lemma init_state_ok: "scraped_ok (init_state reqs)"
  by (simp add: scraped_ok_def init_state_def)

lemma union_columns_step:
  "\<forall>f \<in> set fs. columns f = cs \<Longrightarrow>
   foldl (\<lambda>acc f. acc @ filter (\<lambda>c. c \<notin> set acc) (columns f)) cs fs = cs"
proof (induction fs)
  case Nil
  then show ?case by simp
next
  case (Cons f fs)
  have "filter (\<lambda>c. c \<notin> set cs) cs = []" by (simp add: filter_rows_none)
  with Cons show ?case by simp
qed

lemma union_columns_same:
  assumes "fs \<noteq> []" "\<forall>f \<in> set fs. columns f = cs"
  shows "union_columns fs = cs"
proof -
  from assms(1) obtain f fs' where fs: "fs = f # fs'" by (cases fs) auto
  with assms(2) have "columns f = cs" "\<forall>f \<in> set fs'. columns f = cs" by auto
  then show ?thesis
    unfolding union_columns_def fs by (simp add: union_columns_step)
qed

lemma pd_concat_columns: "columns (pd_concat fs) = union_columns fs"
  by (simp add: pd_concat_def Let_def)

lemma pd_concat_no_rows: "rows (pd_concat fs) = [] \<longleftrightarrow> (\<forall>f \<in> set fs. rows f = [])"
  by (simp add: pd_concat_def Let_def reset_index_def enumerate_eq_zip)

lemma clean_schema_ok:
  assumes "columns df = expected_columns @ [''Month'', ''Year'']"
  shows "\<exists>valid rn ri. clean L df = Inr (valid, rn, ri)"
proof -
  from clean_rows_schema [OF assms, of L] obtain kept rn ri where
    k: "clean_rows L df = Inr (kept, rn, ri)" "columns kept = clean_columns"
    "list_all (\<lambda>(i, r). numeric_row r) (rows kept)"
    by blast
  from standardize_schema [OF k(2,3), of L] obtain valid where "standardize L kept = Inr valid"
    by blast
  with k(1) show ?thesis by (auto simp: clean_def then_do_def)
qed

lemma dash_kept_eval:
  "filter (\<lambda>r. \<not> drops L0 r) (map (kept_cells dash_table) (map snd (rows dash_table))) =
     [[Str ''03 January 2024 - 05:00 AM'', Str ''---'', Str ''121.0'', Str ''10'', Str ''4.2'', Str ''Dash'']]"
  by code_simp

lemma dash_pipeline: "table_pipeline L0 [dash_table] (Str ''January'') (Num 2024) = Some dash_frame"
proof -
  have f: "find_table [dash_table] = Some dash_table" "\<not> df_empty dash_table"
    "6 \<le> length (columns dash_table)"
    by (simp_all add: dash_table_def df_empty_def)
  show ?thesis
    unfolding table_pipeline_rows [OF f, of L0] dash_kept_eval dash_frame_def
    by (simp add: expected_columns_def)
qed

lemma W_dash_january:
  "scrape_phivolcs_data_from_html W_dash L0 2024 ''January'' reqs =
     (Some dash_frame, reqs @ [Monthly_page 2024 ''January''])"
  by (simp add: scrape_phivolcs_data_from_html_def W_dash_def get_tables_def raise_for_status_def
      dash_pipeline)

lemma W_dash_other:
  "m \<noteq> ''January'' \<Longrightarrow>
   scrape_phivolcs_data_from_html W_dash L0 2024 m reqs = (None, reqs @ [Monthly_page 2024 m])"
  by (simp add: scrape_phivolcs_data_from_html_def W_dash_def get_tables_def)

lemma W_dash_step_january:
  assumes "\<not> current_month_found s"
  shows "month_step W_dash L0 2024 s ''January'' =
    s\<lparr>all_data := all_data s @ [dash_frame], successful_months := successful_months s @ [''January''],
      current_month_found := False, requests := requests s @ [Monthly_page 2024 ''January'']\<rparr>"
  unfolding month_step_active [OF assms] W_dash_january
  by (simp add: no_rows_def df_empty_def dash_frame_def W_dash_def)

lemma W_dash_step_other:
  assumes "\<not> current_month_found s" "m \<noteq> ''January''"
  shows "month_step W_dash L0 2024 s m =
    s\<lparr>failed_months := failed_months s @ [m], current_month_found := False,
      requests := requests s @ [Monthly_page 2024 m]\<rparr>"
  unfolding month_step_active [OF assms(1)] W_dash_other [OF assms(2)]
  by (simp add: no_rows_def W_dash_def)

lemma W_dash_loop: "months_loop W_dash L0 2024 MONTH_NAMES (init_state []) = dash_final"
  by (simp add: MONTH_NAMES_def init_state_def W_dash_step_january W_dash_step_other dash_final_def)

lemma dash_concat_eval: "pd_concat [dash_frame] = dash_frame"
  by code_simp

lemma dash_rows_eval: "clean_rows L0 dash_frame = Inr (none_kept, dash_missing, none_kept)"
  by code_simp

lemma none_std_eval: "standardize L0 none_kept = Inr no_records"
  by code_simp

lemma dash_clean: "clean L0 dash_frame = Inr (no_records, dash_missing, none_kept)"
  by (simp add: clean_def then_do_def dash_rows_eval none_std_eval)

lemma year_file_2024_eval: "year_file ''data'' 2024 = ''data/phivolcs_earthquake_2024.csv''"
  by code_simp

text \<open>
  Claim C9, as amended. The scrape of a year ends with the state of the loop over the months,
  and the frames gathered there are none if and only if no month was successful, if and only
  if their concatenation has no row. The file \<^verbatim>\<open>phivolcs_earthquake_{year}.csv\<close> is written if
  and only if the rows gathered before the cleaning are at least one (line 231 tests
  \<^verbatim>\<open>all_data\<close>) and the file system lets lines 303 to 307 through: the name of the directory
  is not empty, \<^verbatim>\<open>os.makedirs\<close> returns on it and the file can be opened. With no frame
  gathered the function returns \<^verbatim>\<open>None\<close> and writes nothing. With a frame gathered the
  cleaning always returns, and then either the file system lets the write through, and the one
  file written holds exactly the valid records of the cleaning of the concatenated frames,
  which are the frame returned (they may be none, see the counterexample below), or it does
  not, and the function raises OSError and writes nothing.
\<close>

theorem year_file_written:
  assumes "s = months_loop W L year MONTH_NAMES (init_state reqs)"
    and "r = scrape_year_data W F L year output_dir reqs"
  shows "final r = s \<and>
     (all_data s = [] \<longleftrightarrow> rows (pd_concat (all_data s)) = []) \<and>
     (all_data s = [] \<longleftrightarrow> successful_months s = []) \<and>
     (written r \<noteq> [] \<longleftrightarrow>
        rows (pd_concat (all_data s)) \<noteq> [] \<and> output_dir \<noteq> [] \<and> can_makedirs F output_dir \<and>
        can_write F (year_file output_dir year)) \<and>
     (all_data s = [] \<longrightarrow> outcome r = Inr None \<and> written r = []) \<and>
     (all_data s \<noteq> [] \<longrightarrow>
        (\<exists>valid rn ri. clean L (pd_concat (all_data s)) = Inr (valid, rn, ri) \<and>
           (output_dir \<noteq> [] \<and> can_makedirs F output_dir \<and> can_write F (year_file output_dir year) \<longrightarrow>
              outcome r = Inr (Some valid) \<and> written r = [(year_file output_dir year, valid)]) \<and>
           (\<not> (output_dir \<noteq> [] \<and> can_makedirs F output_dir \<and> can_write F (year_file output_dir year)) \<longrightarrow>
              outcome r = Inl OSError \<and> written r = [])))"
proof -
  have ok: "scraped_ok s" unfolding assms(1) by (simp add: months_loop_ok init_state_ok)
  then have cols: "\<forall>f \<in> set (all_data s). columns f = expected_columns @ [''Month'', ''Year'']"
    and ne: "\<forall>f \<in> set (all_data s). rows f \<noteq> []"
    and len: "length (successful_months s) = length (all_data s)"
    by (auto simp: scraped_ok_def list_all_iff)
  have r: "r = (if all_data s \<noteq> []
         then (case then_do (clean L (pd_concat (all_data s)))
                      (\<lambda>(combined_df, removed_nan_rows, removed_null_island_rows).
                         then_do (os_makedirs F output_dir)
                           (\<lambda>u. then_do (to_csv F (year_file output_dir year) combined_df)
                                  (\<lambda>file. Inr (combined_df, file)))) of
                 Inl e \<Rightarrow> \<lparr>outcome = Inl e, written = [], final = s\<rparr>
               | Inr (combined_df, file) \<Rightarrow>
                   \<lparr>outcome = Inr (Some combined_df), written = [file], final = s\<rparr>)
         else \<lparr>outcome = Inr None, written = [], final = s\<rparr>)"
    unfolding assms(2) scrape_year_data_def Let_def assms(1) [symmetric] by (rule refl)
  show ?thesis
  proof (cases "all_data s = []")
    case True
    with len have "successful_months s = []" by simp
    with True r show ?thesis
      by (simp add: pd_concat_no_rows)
  next
    case False
    with len have sm: "successful_months s \<noteq> []" by auto
    from False ne have pr: "rows (pd_concat (all_data s)) \<noteq> []"
      by (cases "all_data s") (auto simp: pd_concat_no_rows)
    have "columns (pd_concat (all_data s)) = expected_columns @ [''Month'', ''Year'']"
      unfolding pd_concat_columns by (rule union_columns_same [OF False cols])
    from clean_schema_ok [OF this, of L] obtain valid rn ri where
      c: "clean L (pd_concat (all_data s)) = Inr (valid, rn, ri)" by blast
    have r': "r = (case then_do (os_makedirs F output_dir)
                           (\<lambda>u. then_do (to_csv F (year_file output_dir year) valid)
                                  (\<lambda>file. Inr (valid, file))) of
                 Inl e \<Rightarrow> \<lparr>outcome = Inl e, written = [], final = s\<rparr>
               | Inr (combined_df, file) \<Rightarrow>
                   \<lparr>outcome = Inr (Some combined_df), written = [file], final = s\<rparr>)"
      using False unfolding r c by (simp add: then_do_def)
    show ?thesis
    proof (cases "output_dir \<noteq> [] \<and> can_makedirs F output_dir \<and> can_write F (year_file output_dir year)")
      case True
      then have "r = \<lparr>outcome = Inr (Some valid), written = [(year_file output_dir year, valid)], final = s\<rparr>"
        unfolding r' by (simp add: then_do_def os_makedirs_def to_csv_def)
      with True False sm pr c show ?thesis by simp
    next
      case nok: False
      then have "r = \<lparr>outcome = Inl OSError, written = [], final = s\<rparr>"
        unfolding r' by (auto simp: then_do_def os_makedirs_def to_csv_def)
      with nok False sm pr c show ?thesis by simp
    qed
  qed
qed

lemma W_dash_year:
  "scrape_year_data W_dash F L0 2024 output_dir [] =
     (case then_do (os_makedirs F output_dir)
             (\<lambda>u. then_do (to_csv F (year_file output_dir 2024) no_records)
                    (\<lambda>file. Inr (no_records, file))) of
        Inl e \<Rightarrow> \<lparr>outcome = Inl e, written = [], final = dash_final\<rparr>
      | Inr (combined_df, file) \<Rightarrow>
          \<lparr>outcome = Inr (Some combined_df), written = [file], final = dash_final\<rparr>)"
proof -
  have a: "all_data dash_final = [dash_frame]" by (simp add: dash_final_def)
  show ?thesis
    unfolding scrape_year_data_def W_dash_loop Let_def a dash_concat_eval dash_clean
    by (simp add: then_do_def)
qed

text \<open>
  Against the words of claim C9 (a file if and only if the dataset of the year has at least one
  row; an empty output produces no file): one month answers with one row whose latitude is
  \<^verbatim>\<open>---\<close>; the row is removed by the cleaning and the file of the year is written with no
  record.
\<close>

theorem empty_year_file_counterexample:
  "scrape_year_data W_dash F_ok L0 2024 ''data'' [] =
     \<lparr>outcome = Inr (Some no_records),
      written = [(''data/phivolcs_earthquake_2024.csv'', no_records)],
      final = dash_final\<rparr> \<and>
   rows no_records = [] \<and>
   rows (pd_concat (all_data dash_final)) = rows dash_frame \<and> length (rows dash_frame) = 1"
proof -
  have a: "all_data dash_final = [dash_frame]" by (simp add: dash_final_def)
  have "scrape_year_data W_dash F_ok L0 2024 ''data'' [] =
     \<lparr>outcome = Inr (Some no_records),
      written = [(''data/phivolcs_earthquake_2024.csv'', no_records)],
      final = dash_final\<rparr>"
    unfolding W_dash_year year_file_2024_eval
    by (simp add: then_do_def os_makedirs_def to_csv_def F_ok_def)
  then show ?thesis
    by (simp add: a dash_concat_eval) (simp add: no_records_def dash_frame_def)
qed

lemma W_down_step:
  assumes "\<not> current_month_found s"
  shows "month_step W_down L0 2024 s m =
    s\<lparr>failed_months := failed_months s @ [m], current_month_found := False,
      requests := requests s @ [Monthly_page 2024 m]\<rparr>"
proof -
  have e: "scrape_phivolcs_data_from_html W_down L0 2024 m (requests s) =
      (None, requests s @ [Monthly_page 2024 m])"
    by (rule monthly_other_failure) (simp add: W_down_def)
  show ?thesis
    unfolding month_step_active [OF assms] e
    by (simp add: no_rows_def W_down_def)
qed

lemma W_down_loop: "all_data (months_loop W_down L0 2024 MONTH_NAMES (init_state [])) = []"
  by (simp add: MONTH_NAMES_def init_state_def W_down_step)

text \<open>The theorem at three runs of the year 2024: the page with the one unreadable row and a
  directory \<^verbatim>\<open>data\<close>, the same page and the empty directory name, and a network that is down.\<close>

theorem year_file_written_witness:
  "all_data (months_loop W_dash L0 2024 MONTH_NAMES (init_state [])) \<noteq> [] \<and>
   clean L0 (pd_concat (all_data (months_loop W_dash L0 2024 MONTH_NAMES (init_state [])))) =
     Inr (no_records, dash_missing, none_kept) \<and>
   outcome (scrape_year_data W_dash F_ok L0 2024 ''data'' []) = Inr (Some no_records) \<and>
   written (scrape_year_data W_dash F_ok L0 2024 ''data'' []) =
     [(''data/phivolcs_earthquake_2024.csv'', no_records)] \<and>
   outcome (scrape_year_data W_dash F_ok L0 2024 [] []) = Inl OSError \<and>
   written (scrape_year_data W_dash F_ok L0 2024 [] []) = [] \<and>
   all_data (months_loop W_down L0 2024 MONTH_NAMES (init_state [])) = [] \<and>
   outcome (scrape_year_data W_down F_ok L0 2024 ''data'' []) = Inr None \<and>
   written (scrape_year_data W_down F_ok L0 2024 ''data'' []) = []"
proof -
  have a: "all_data (months_loop W_dash L0 2024 MONTH_NAMES (init_state [])) = [dash_frame]"
    by (simp add: W_dash_loop dash_final_def)
  have c: "clean L0 (pd_concat (all_data (months_loop W_dash L0 2024 MONTH_NAMES (init_state [])))) =
     Inr (no_records, dash_missing, none_kept)"
    unfolding a dash_concat_eval by (rule dash_clean)
  have f: "''data'' \<noteq> [] \<and> can_makedirs F_ok ''data'' \<and> can_write F_ok (year_file ''data'' 2024)"
    by (simp add: F_ok_def)
  have g: "\<not> ([] \<noteq> ([]::string) \<and> can_makedirs F_ok [] \<and> can_write F_ok (year_file [] 2024))"
    by simp
  from year_file_written [where W = W_dash and L = L0 and year = 2024 and reqs = "[]" and F = F_ok
      and output_dir = "''data''", OF refl refl] a c f
  have p1: "outcome (scrape_year_data W_dash F_ok L0 2024 ''data'' []) = Inr (Some no_records)"
    "written (scrape_year_data W_dash F_ok L0 2024 ''data'' []) =
       [(''data/phivolcs_earthquake_2024.csv'', no_records)]"
    by (auto simp: year_file_2024_eval)
  from year_file_written [where W = W_dash and L = L0 and year = 2024 and reqs = "[]" and F = F_ok
      and output_dir = "[]", OF refl refl] a g
  have p2: "outcome (scrape_year_data W_dash F_ok L0 2024 [] []) = Inl OSError"
    "written (scrape_year_data W_dash F_ok L0 2024 [] []) = []"
    by auto
  from year_file_written [where W = W_down and L = L0 and year = 2024 and reqs = "[]" and F = F_ok
      and output_dir = "''data''", OF refl refl] W_down_loop
  have p3: "outcome (scrape_year_data W_down F_ok L0 2024 ''data'' []) = Inr None"
    "written (scrape_year_data W_down F_ok L0 2024 ''data'' []) = []"
    by auto
  from a c p1 p2 p3 W_down_loop show ?thesis by simp
qed

section \<open>The table that the normalizer works on\<close>

text \<open>
  Claim C4. The normalizer works on the first parsed table that has at least five columns.
  When every table is narrower the result is empty (\<^verbatim>\<open>None\<close>). When narrower tables come
  before a table of at least five columns, that table is the one found, the result is the
  result on that table alone, whatever comes before or after it, and it is determined by the
  cells of that table: empty when the table has no row or exactly five columns, and otherwise
  the kept rows of that table, in order, under the six labels, with the month and the year.
  The function of lines 99 to 187 returns that result when the monthly page answers with the
  tables and a status that does not raise.
\<close>

theorem first_wide_table_selected:
  "(list_all (\<lambda>t. length (columns t) < 5) tables \<longrightarrow> table_pipeline L tables m y = None) \<and>
   (list_all (\<lambda>t. length (columns t) < 5) pre \<and> 5 \<le> length (columns df) \<longrightarrow>
      find_table (pre @ df # post) = Some df \<and>
      table_pipeline L (pre @ df # post) m y = table_pipeline L [df] m y \<and>
      table_pipeline L (pre @ df # post) m y =
        (if df_empty df \<or> length (columns df) < 6 then None
         else Some \<lparr>columns = expected_columns @ [''Month'', ''Year''],
                    rows = map (\<lambda>(i, r). (i, r @ [m, y]))
                      (enumerate 0 (filter (\<lambda>r. \<not> drops L r)
                         (map (kept_cells df) (map snd (rows df)))))\<rparr>) \<and>
      (net W (length reqs) (Monthly_page year month_name) = Response st (Some (pre @ df # post)) \<and>
       \<not> raise_for_status st \<longrightarrow>
         scrape_phivolcs_data_from_html W L year month_name reqs =
           (table_pipeline L [df] (Str month_name) (Num (of_int year)),
            reqs @ [Monthly_page year month_name])))"
proof (intro conjI impI)
  assume "list_all (\<lambda>t. length (columns t) < 5) tables"
  then show "table_pipeline L tables m y = None"
    by (simp add: table_pipeline_def find_table_none)
next
  assume a: "list_all (\<lambda>t. length (columns t) < 5) pre \<and> 5 \<le> length (columns df)"
  then show f: "find_table (pre @ df # post) = Some df"
    by (simp add: find_table_first)
  from a have "find_table [df] = Some df" by simp
  with f have e: "table_pipeline L (pre @ df # post) m' y' = table_pipeline L [df] m' y'" for m' y'
    by (simp add: table_pipeline_def)
  then show "table_pipeline L (pre @ df # post) m y = table_pipeline L [df] m y" .
  show "table_pipeline L (pre @ df # post) m y =
        (if df_empty df \<or> length (columns df) < 6 then None
         else Some \<lparr>columns = expected_columns @ [''Month'', ''Year''],
                    rows = map (\<lambda>(i, r). (i, r @ [m, y]))
                      (enumerate 0 (filter (\<lambda>r. \<not> drops L r)
                         (map (kept_cells df) (map snd (rows df)))))\<rparr>)"
  proof (cases "df_empty df \<or> length (columns df) < 6")
    case True
    then show ?thesis
      using table_pipeline_empty [OF f, of L m y] table_pipeline_narrow [OF f, of L m y] by auto
  next
    case False
    then have "\<not> df_empty df" "6 \<le> length (columns df)" by auto
    from table_pipeline_rows [OF f this, of L m y] False show ?thesis by simp
  qed
  assume n: "net W (length reqs) (Monthly_page year month_name) = Response st (Some (pre @ df # post)) \<and>
       \<not> raise_for_status st"
  then have "get_tables (net W (length reqs) (Monthly_page year month_name)) = Inr (pre @ df # post)"
    by (simp add: get_tables_def)
  then show "scrape_phivolcs_data_from_html W L year month_name reqs =
           (table_pipeline L [df] (Str month_name) (Num (of_int year)),
            reqs @ [Monthly_page year month_name])"
    by (simp add: scrape_phivolcs_data_from_html_def Let_def e)
qed

text \<open>The theorem on a page of a narrow table, a table of six columns and a second table of six
  columns: the result is the one row of the first table of six columns, not the row of the
  second; and on a page where the first table of five columns or more has exactly five.\<close>

theorem first_wide_table_selected_witness:
  "table_pipeline L0 [narrow_table] (Str ''January'') (Num 2024) = None \<and>
   find_table ([narrow_table] @ six_table # [dash_table]) = Some six_table \<and>
   table_pipeline L0 ([narrow_table] @ six_table # [dash_table]) (Str ''January'') (Num 2024) =
     Some \<lparr>columns = expected_columns @ [''Month'', ''Year''],
           rows = [(0, quake_row @ [Str ''January'', Num 2024])]\<rparr> \<and>
   scrape_phivolcs_data_from_html W_three L0 2024 ''January'' [] =
     (Some \<lparr>columns = expected_columns @ [''Month'', ''Year''],
            rows = [(0, quake_row @ [Str ''January'', Num 2024])]\<rparr>,
      [Monthly_page 2024 ''January'']) \<and>
   table_pipeline L0 [dash_table] (Str ''January'') (Num 2024) = Some dash_frame \<and>
   dash_frame \<noteq> \<lparr>columns = expected_columns @ [''Month'', ''Year''],
                   rows = [(0, quake_row @ [Str ''January'', Num 2024])]\<rparr> \<and>
   find_table ([narrow_table] @ five_table # [six_table]) = Some five_table \<and>
   table_pipeline L0 ([narrow_table] @ five_table # [six_table]) (Str ''January'') (Num 2024) = None"
proof -
  have n: "list_all (\<lambda>t. length (columns t) < 5) [narrow_table]"
    by (simp add: narrow_table_def)
  have w: "5 \<le> length (columns six_table)" "\<not> (df_empty six_table \<or> length (columns six_table) < 6)"
    by (simp_all add: six_table_def df_empty_def)
  have v: "5 \<le> length (columns five_table)" "df_empty five_table \<or> length (columns five_table) < 6"
    by (simp_all add: five_table_def)
  have d: "dash_frame \<noteq> \<lparr>columns = expected_columns @ [''Month'', ''Year''],
                   rows = [(0, quake_row @ [Str ''January'', Num 2024])]\<rparr>"
    by (simp add: dash_frame_def quake_row_def)
  have g: "net W_three (length ([]::request list)) (Monthly_page 2024 ''January'') =
      Response 200 (Some ([narrow_table] @ six_table # [dash_table])) \<and> \<not> raise_for_status 200"
    by (simp add: W_three_def raise_for_status_def)
  have c6: "list_all (\<lambda>t. length (columns t) < 5) [narrow_table] \<and> 5 \<le> length (columns six_table)"
    using n w by simp
  note S = first_wide_table_selected [of "[narrow_table]" L0 "Str ''January''" "Num 2024"
      "[narrow_table]" six_table "[dash_table]" W_three "[]" 2024 "''January''" 200]
  from S [THEN conjunct1] n
  have p0: "table_pipeline L0 [narrow_table] (Str ''January'') (Num 2024) = None" by simp
  note S2 = S [THEN conjunct2, THEN mp, OF c6]
  from S2 [THEN conjunct1]
  have p1: "find_table ([narrow_table] @ six_table # [dash_table]) = Some six_table" .
  from S2 [THEN conjunct2, THEN conjunct2, THEN conjunct1] w(2)
  have p4: "table_pipeline L0 ([narrow_table] @ six_table # [dash_table]) (Str ''January'') (Num 2024) =
     Some \<lparr>columns = expected_columns @ [''Month'', ''Year''],
           rows = [(0, quake_row @ [Str ''January'', Num 2024])]\<rparr>"
    unfolding six_table_kept_eval by simp
  from S2 [THEN conjunct2, THEN conjunct2, THEN conjunct2, THEN mp, OF g]
  have p5: "scrape_phivolcs_data_from_html W_three L0 2024 ''January'' [] =
     (Some \<lparr>columns = expected_columns @ [''Month'', ''Year''],
            rows = [(0, quake_row @ [Str ''January'', Num 2024])]\<rparr>,
      [Monthly_page 2024 ''January''])"
    by (simp add: six_table_pipeline page_frame_def)
  have c: "list_all (\<lambda>t. length (columns t) < 5) [narrow_table] \<and> 5 \<le> length (columns five_table)"
    using n v by simp
  note T = first_wide_table_selected [of "[narrow_table]" L0 "Str ''January''" "Num 2024"
      "[narrow_table]" five_table "[six_table]", THEN conjunct2, THEN mp, OF c]
  from T [THEN conjunct1]
  have p2: "find_table ([narrow_table] @ five_table # [six_table]) = Some five_table" .
  from T [THEN conjunct2, THEN conjunct2, THEN conjunct1] v(2)
  have p3: "table_pipeline L0 ([narrow_table] @ five_table # [six_table]) (Str ''January'') (Num 2024) = None"
    by simp
  from p0 p1 p2 p3 p4 p5 d dash_pipeline show ?thesis by simp
qed

section \<open>The row filter against the words of claim C2\<close>

lemma match_lit_ci:
  "match_here True (lit p) s \<noteq> None \<longleftrightarrow> take (length p) (lower_str s) = lower_str p"
proof (induction p arbitrary: s)
  case Nil
  then show ?case by (simp add: lit_def lower_str_def)
next
  case (Cons a p)
  show ?case
  proof (cases s)
    case Nil
    then show ?thesis by (simp add: lit_def lower_str_def)
  next
    case (Cons c cs)
    with Cons.IH [of cs] show ?thesis
      by (auto simp: lit_def lower_str_def)
  qed
qed

lemma match_lit_cs:
  "match_here False (lit p) s \<noteq> None \<longleftrightarrow> take (length p) s = p"
proof (induction p arbitrary: s)
  case Nil
  then show ?case by (simp add: lit_def)
next
  case (Cons a p)
  show ?case
  proof (cases s)
    case Nil
    then show ?thesis by (simp add: lit_def)
  next
    case (Cons c cs)
    with Cons.IH [of cs] show ?thesis
      by (auto simp: lit_def)
  qed
qed

lemma search_lit_ci: "re_search True (lit p) s \<longleftrightarrow> ci_contains p s"
  unfolding ci_contains_def
  by (induction s) (simp_all add: match_lit_ci lower_str_def del: not_None_eq)

lemma search_lit_cs: "re_search False (lit p) s \<longleftrightarrow> has_substring p s"
  by (induction s) (auto simp: match_lit_cs simp del: not_None_eq)

lemma has_substring_append:
  "has_substring p s \<longleftrightarrow> (\<exists>xs ys. s = xs @ p @ ys)"
proof (induction s)
  case Nil
  then show ?case by auto
next
  case (Cons c cs)
  show ?case
  proof
    assume "has_substring p (c # cs)"
    then consider "take (length p) (c # cs) = p" | "has_substring p cs" by auto
    then show "\<exists>xs ys. c # cs = xs @ p @ ys"
    proof cases
      case 1
      then have "c # cs = [] @ p @ drop (length p) (c # cs)"
        by (metis append_Nil append_take_drop_id)
      then show ?thesis by blast
    next
      case 2
      with Cons.IH obtain xs ys where "cs = xs @ p @ ys" by blast
      then have "c # cs = (c # xs) @ p @ ys" by simp
      then show ?thesis by blast
    qed
  next
    assume "\<exists>xs ys. c # cs = xs @ p @ ys"
    then obtain xs ys where e: "c # cs = xs @ p @ ys" by blast
    show "has_substring p (c # cs)"
    proof (cases xs)
      case Nil
      with e have "take (length p) (c # cs) = p" by simp
      then show ?thesis by simp
    next
      case (Cons x xs')
      with e have "cs = xs' @ p @ ys" by simp
      with Cons.IH have "has_substring p cs" by blast
      then show ?thesis by simp
    qed
  qed
qed

lemma match_here_weaken:
  "list_all2 (\<lambda>x y. \<forall>c. atom_match ic x c \<longrightarrow> atom_match ic y c) p q \<Longrightarrow>
   match_here ic p s \<noteq> None \<Longrightarrow> match_here ic q s \<noteq> None"
proof (induction p q arbitrary: s rule: list_all2_induct)
  case Nil
  then show ?case by simp
next
  case (Cons x p y q)
  then show ?case by (cases s) (auto split: if_splits)
qed

lemma re_search_weaken:
  "list_all2 (\<lambda>x y. \<forall>c. atom_match ic x c \<longrightarrow> atom_match ic y c) p q \<Longrightarrow>
   re_search ic p s \<Longrightarrow> re_search ic q s"
  by (induction s) (auto simp del: not_None_eq dest: match_here_weaken)

lemma dot_covers_literal:
  "has_substring ''no. of events'' t \<Longrightarrow>
   re_search False (lit ''no'' @ [Dot] @ lit '' of events'') t"
proof -
  assume "has_substring ''no. of events'' t"
  then have "re_search False (lit ''no. of events'') t" by (simp add: search_lit_cs)
  moreover have "list_all2 (\<lambda>x y. \<forall>c. atom_match False x c \<longrightarrow> atom_match False y c)
      (lit ''no. of events'') (lit ''no'' @ [Dot] @ lit '' of events'')"
    by (simp add: lit_def)
  ultimately show ?thesis by (rule re_search_weaken [rotated])
qed

lemma match_here_Some:
  "match_here ic p s = Some rest \<longleftrightarrow> (\<exists>pre. s = pre @ rest \<and> list_all2 (atom_match ic) p pre)"
proof (induction p arbitrary: s)
  case Nil
  then show ?case by auto
next
  case (Cons a p)
  show ?case
  proof (cases s)
    case Nil
    then show ?thesis by (auto simp: list_all2_Cons1)
  next
    case (Cons c cs)
    with Cons.IH [of cs] show ?thesis
      by (auto simp: list_all2_Cons1 Cons_eq_append_conv)
  qed
qed

lemma strip_last: "strip s = xs @ [c] \<Longrightarrow> \<not> py_isspace c"
proof -
  assume a: "strip s = xs @ [c]"
  let ?t = "rev (dropWhile py_isspace s)"
  from a have "dropWhile py_isspace ?t = c # rev xs"
    unfolding strip_def by (metis rev_append rev_rev_ident rev_singleton_conv append_Cons append_Nil)
  then show ?thesis by (metis hd_dropWhile list.sel(1) list.distinct(1))
qed

lemma newline_space: "py_isspace (CHR 0x0A)"
  by (simp add: py_isspace_def)

lemma glyph_patterns:
  "[Lit (CHR 0xBA), Lit CHR ''N''] = lit [CHR 0xBA, CHR ''N'']"
  "[Lit (CHR 0xB0), Lit CHR ''N''] = lit [CHR 0xB0, CHR ''N'']"
  "[Lit (CHR 0xBA), Lit CHR ''E''] = lit [CHR 0xBA, CHR ''E'']"
  "[Lit (CHR 0xB0), Lit CHR ''E''] = lit [CHR 0xB0, CHR ''E'']"
  by (simp_all add: lit_def)

lemma header_row_claimed: "header_row L 0 1 2 r \<longleftrightarrow> claimed_header L r"
  unfolding header_row_def claimed_header_def str_contains_def pat_datetime_def pat_latitude_def
    pat_longitude_def glyph_patterns
  by (simp add: search_lit_ci disj_ac)

lemma lower_total_eval: "lower_str ''total'' = ''total''" "lower_str ''no. of events'' = ''no. of events''"
  by code_simp+

lemma summary_mask_claimed: "summary_mask L r \<longleftrightarrow> claimed_summary L r \<or> dot_wildcard L r"
  unfolding summary_mask_def claimed_summary_def str_contains_def pat_summary_def dot_wildcard_def
    ci_contains_def lower_total_eval
  using dot_covers_literal [of "lower_str (first_col L r)"]
  by (auto simp: search_lit_cs)

lemma month_abbrev_claimed: "month_abbrev_mask L r \<longleftrightarrow> claimed_month_abbrev L r"
proof
  assume "month_abbrev_mask L r"
  then obtain rest pre where m: "first_col L r = pre @ rest"
    "list_all2 (atom_match False) pat_month_abbrev pre" "rest = [] \<or> rest = [CHR 0x0A]"
    by (auto simp: month_abbrev_mask_def str_match_anchored_def match_here_Some split: option.splits)
  have "rest = []"
  proof (rule ccontr)
    assume "rest \<noteq> []"
    with m(3) have "rest = [CHR 0x0A]" by simp
    with m(1) have "strip (astype_str L (cell_at r 0)) = pre @ [CHR 0x0A]"
      by (simp add: first_col_def)
    from strip_last [OF this] newline_space show False by simp
  qed
  with m(1,2) show "claimed_month_abbrev L r"
    by (auto simp: claimed_month_abbrev_def pat_month_abbrev_def list_all2_Cons1)
next
  assume "claimed_month_abbrev L r"
  then obtain a b c d e f where fc: "first_col L r = [a, b, c, d, e, f]"
    and ok: "in_range a 65 90" "in_range b 97 122" "in_range c 97 122" "d = CHR ''-''"
      "in_range e 48 57" "in_range f 48 57"
    by (auto simp: claimed_month_abbrev_def split: list.splits)
  then show "month_abbrev_mask L r"
    by (simp add: month_abbrev_mask_def str_match_anchored_def pat_month_abbrev_def)
qed

text \<open>
  The source against the words of the specification: the rows that lines 151 to 167 remove are the
  rows that match one of its four predicates, and the rows whose first cell
  matches the pattern with the dot as a wildcard.
\<close>

lemma drops_claimed: "drops L r \<longleftrightarrow> claimed_drop L r \<or> dot_wildcard L r"
  unfolding drops_def claimed_drop_def header_row_claimed summary_mask_claimed month_abbrev_claimed
  by blast

lemma typo_claimed_eval: "\<not> claimed_drop L0 typo_row"
  by code_simp

lemma typo_wildcard_eval: "dot_wildcard L0 typo_row"
  by code_simp

text \<open>
  Claim C2, at the failing input. The row matches none of the four predicates of the
  claim, yet the source removes it, and the result of the normalizer on the table that
  holds it has no row: the dot of \<^verbatim>\<open>'total|no. of events'\<close> matches the colon.
\<close>

theorem summary_dot_drops_row:
  "\<not> claimed_drop L0 typo_row \<and> drops L0 typo_row \<and>
   table_pipeline L0 [typo_table] (Str ''January'') (Num 2024) =
     Some \<lparr>columns = expected_columns @ [''Month'', ''Year''], rows = []\<rparr>"
proof -
  have d: "drops L0 typo_row"
    using typo_wildcard_eval by (simp add: drops_claimed)
  have f: "find_table [typo_table] = Some typo_table" "\<not> df_empty typo_table"
    "6 \<le> length (columns typo_table)"
    by (simp_all add: typo_table_def df_empty_def)
  have k: "map (kept_cells typo_table) (map snd (rows typo_table)) = [typo_row]"
    by (simp add: typo_table_def kept_cells_def)
  show ?thesis
    unfolding table_pipeline_rows [OF f, of L0] k
    using d typo_claimed_eval by simp
qed

lemma map_snd_rows: "map snd (map (\<lambda>(i, r). (i, f r)) xs) = map f (map snd xs)"
  by (induction xs) auto

lemma map_fst_rows: "map fst (map (\<lambda>(i, r). (i, f r)) xs) = map fst xs"
  by (induction xs) auto

text \<open>
  What the normalizer keeps, with the dot of line 162 read as the source has it: for a
  selected table with at least six columns and at least one row, the result holds exactly
  the rows (cut to six cells) that match none of the four predicates of the specification and not
  the wildcard pattern, in the order of the table, each followed by the two metadata
  cells, and numbered from 0.
\<close>

theorem surviving_rows_in_order:
  assumes "find_table tables = Some df" "\<not> df_empty df" "6 \<le> length (columns df)"
  shows "\<exists>out. table_pipeline L tables m y = Some out \<and>
     map snd (rows out) =
       map (\<lambda>r. r @ [m, y])
         (filter (\<lambda>r. \<not> (claimed_drop L r \<or> dot_wildcard L r))
            (map (kept_cells df) (map snd (rows df)))) \<and>
     map fst (rows out) = [0..<length (rows out)]"
proof -
  let ?ks = "filter (\<lambda>r. \<not> drops L r) (map (kept_cells df) (map snd (rows df)))"
  let ?out = "\<lparr>columns = expected_columns @ [''Month'', ''Year''],
          rows = map (\<lambda>(i, r). (i, r @ [m, y])) (enumerate 0 ?ks)\<rparr>"
  have p: "table_pipeline L tables m y = Some ?out"
    by (rule table_pipeline_rows [OF assms])
  have e: "map snd (rows ?out) = map (\<lambda>r. r @ [m, y]) ?ks"
    by (simp only: frame.simps map_snd_rows map_snd_enumerate)
  have d: "?ks = filter (\<lambda>r. \<not> (claimed_drop L r \<or> dot_wildcard L r))
            (map (kept_cells df) (map snd (rows df)))"
    by (simp only: drops_claimed)
  have i: "map fst (rows ?out) = [0..<length (rows ?out)]"
    by (simp only: frame.simps map_fst_rows map_fst_enumerate length_map length_enumerate) simp
  from p e i show ?thesis unfolding d by blast
qed

theorem surviving_rows_in_order_witness:
  "find_table [six_table] = Some six_table \<and> \<not> df_empty six_table \<and> 6 \<le> length (columns six_table) \<and>
   (\<exists>out. table_pipeline L0 [six_table] (Str ''January'') (Num 2024) = Some out \<and>
     map snd (rows out) =
       map (\<lambda>r. r @ [Str ''January'', Num 2024])
         (filter (\<lambda>r. \<not> (claimed_drop L0 r \<or> dot_wildcard L0 r))
            (map (kept_cells six_table) (map snd (rows six_table)))) \<and>
     map fst (rows out) = [0..<length (rows out)])"
proof -
  have f: "find_table [six_table] = Some six_table" "\<not> df_empty six_table"
    "6 \<le> length (columns six_table)"
    by (simp_all add: six_table_def df_empty_def)
  from surviving_rows_in_order [OF f, of L0 "Str ''January''" "Num 2024"] f
  show ?thesis by iprover
qed

end
